theory Spec2Isabelle
  imports Main "HOL-Library.Word" "HOL-Library.AList"
begin

section \<open>JavaScript values and errors\<close>

text \<open>
  The sources are JavaScript (a fork of bitcore). Numbers that the code handles are
  integers (versions, coordinates, colours, heights, work), modelled as \<open>int\<close>;
  arithmetic on \<open>undefined\<close> gives \<open>NaN\<close>, which is kept as a value of its own.
  Every \<open>throw\<close> is a value of \<open>error\<close>: \<open>$.checkArgument\<close> throws
  \<open>InvalidArgument\<close>, \<open>$.checkState\<close> throws \<open>InvalidState\<close>, reading a property
  of \<open>undefined\<close> throws \<open>TypeError\<close>, and \<open>throw new Error(...)\<close> is \<open>Error\<close>;
  \<open>UnexpectedEOF\<close>, \<open>TruncatedInput\<close> and \<open>RangeError\<close> come from the codec.
\<close>

type_synonym byte = "8 word"
type_synonym bytes = "byte list"

datatype error =
    InvalidArgument
  | InvalidState
  | TypeError
  | RangeError
  | UnexpectedEOF
  | TruncatedInput
  | Error

definition bindE :: "error + 'a \<Rightarrow> ('a \<Rightarrow> error + 'b) \<Rightarrow> error + 'b" where
  "bindE m f = (case m of Inl e \<Rightarrow> Inl e | Inr v \<Rightarrow> f v)"

definition mapE :: "('a \<Rightarrow> 'b) \<Rightarrow> error + 'a \<Rightarrow> error + 'b" where
  "mapE f m = (case m of Inl e \<Rightarrow> Inl e | Inr v \<Rightarrow> Inr (f v))"

text \<open>
  A \<open>Buffer\<close> is an object: \<open>===\<close> on two buffers compares references. The only
  reference comparison in the sources is against the module constant
  \<open>BufferUtil.NULL_HASH\<close>, so a buffer is either that one object or some other buffer
  object with its bytes (\<open>new Buffer(...)\<close>, \<open>reader.read(n)\<close> and the hash functions
  all allocate).
\<close>

datatype buffer = NULL_HASH | Buf bytes

fun bytes_of :: "buffer \<Rightarrow> bytes" where
  "bytes_of NULL_HASH = replicate 32 0"
| "bytes_of (Buf bs) = bs"

section \<open>Codec\<close>

text \<open>
  Modelled from the spec: the integer encodings of \<open>BufferReader\<close> and
  \<open>BufferWriter\<close> (lib/encoding, not among the sources). Section 4.1: little-endian
  \<open>u8\<close>, \<open>u32 LE\<close> and \<open>i32 LE\<close>; \<open>le_bytes k n\<close> gives the \<open>k\<close> low bytes of
  \<open>n\<close>, two's complement for a negative \<open>n\<close>.
\<close>

fun le_bytes :: "nat \<Rightarrow> int \<Rightarrow> bytes" where
  "le_bytes 0 n = []"
| "le_bytes (Suc k) n = word_of_int n # le_bytes k (n div 256)"

fun le_uint :: "bytes \<Rightarrow> int" where
  "le_uint [] = 0"
| "le_uint (b # bs) = uint b + 256 * le_uint bs"

text \<open>
  Modelled from the spec: \<open>BufferReader\<close> (lib/encoding/bufferreader.js, not among the
  sources). Section 4.1: a reader over a byte buffer supporting \<open>u8\<close>, \<open>u32 LE\<close>,
  \<open>i32 LE\<close> and fixed-length byte runs, which fails with \<open>UnexpectedEOF\<close> when it is
  out of bytes and with \<open>TruncatedInput\<close> when a trailing field is partial. A reader
  is the list of bytes still to be read; a read gives the value and the reader after
  it.
\<close>

definition finished :: "bytes \<Rightarrow> bool" where
  "finished r = (r = [])"

definition read :: "nat \<Rightarrow> bytes \<Rightarrow> error + (bytes \<times> bytes)" where
  "read n r =
     (if n \<le> length r then Inr (take n r, drop n r)
      else if r = [] then Inl UnexpectedEOF
      else Inl TruncatedInput)"

definition readUInt8 :: "bytes \<Rightarrow> error + (int \<times> bytes)" where
  "readUInt8 r = bindE (read 1 r) (\<lambda>(bs, r'). Inr (le_uint bs, r'))"

definition readUInt32LE :: "bytes \<Rightarrow> error + (int \<times> bytes)" where
  "readUInt32LE r = bindE (read 4 r) (\<lambda>(bs, r'). Inr (le_uint bs, r'))"

definition readInt32LE :: "bytes \<Rightarrow> error + (int \<times> bytes)" where
  "readInt32LE r = bindE (read 4 r) (\<lambda>(bs, r').
     Inr (if le_uint bs \<ge> 2 ^ 31 then le_uint bs - 2 ^ 32 else le_uint bs, r'))"

text \<open>
  Modelled from the spec: \<open>BufferWriter\<close> (lib/encoding/bufferwriter.js, not among the
  sources). Section 4.1: a writer supporting the same fields. A writer is the list of
  bytes written so far; \<open>write_buf\<close> is its method \<open>write\<close>. The specification
  gives each field its range and is silent on other numbers; here a number outside
  the range of the field is rejected (\<open>RangeError\<close>), as Node's \<open>Buffer\<close> does.
\<close>

definition write_buf :: "bytes \<Rightarrow> bytes \<Rightarrow> bytes" where
  "write_buf bs w = w @ bs"

definition writeUInt8 :: "int \<Rightarrow> bytes \<Rightarrow> error + bytes" where
  "writeUInt8 n w = (if 0 \<le> n \<and> n \<le> 255 then Inr (w @ le_bytes 1 n) else Inl RangeError)"

definition writeUInt32LE :: "int \<Rightarrow> bytes \<Rightarrow> error + bytes" where
  "writeUInt32LE n w =
     (if 0 \<le> n \<and> n < 2 ^ 32 then Inr (w @ le_bytes 4 n) else Inl RangeError)"

definition writeInt32LE :: "int \<Rightarrow> bytes \<Rightarrow> error + bytes" where
  "writeInt32LE n w =
     (if - (2 ^ 31) \<le> n \<and> n < 2 ^ 31 then Inr (w @ le_bytes 4 n) else Inl RangeError)"

section \<open>External collaborators\<close>

text \<open>
  The double SHA-256, the ECDSA primitives, the key and signature classes (opaque to
  the specification, sections 1 and 3) and Node's own \<open>Buffer\<close> hex conversions are
  outside the sources; they are parameters of the model. \<open>PublicKey_toBuffer\<close> gives
  the bytes that \<open>owner.toBufferWriter(writer)\<close> appends, and
  \<open>PublicKey_fromBufferReader\<close> the key read and the reader after it.
\<close>

record ('pk, 'sk, 'sg) ext =
  sha256sha256 :: "bytes \<Rightarrow> bytes"
  PublicKey_toBuffer :: "'pk \<Rightarrow> bytes"
  PublicKey_fromBufferReader :: "bytes \<Rightarrow> error + ('pk \<times> bytes)"
  Signature_toBuffer :: "'sg \<Rightarrow> bytes"
  Signature_fromBuffer :: "bytes \<Rightarrow> error + 'sg"
  ECDSA_sign :: "'sk \<Rightarrow> bytes \<Rightarrow> 'sg"
  ECDSA_verify :: "'pk \<Rightarrow> bytes \<Rightarrow> 'sg \<Rightarrow> bool"
  Buffer_toString_hex :: "bytes \<Rightarrow> string"
  Buffer_from_hex :: "string \<Rightarrow> error + bytes"

section \<open>Transaction (lib/transaction/transaction.js)\<close>

datatype position = Position (pos_x: int) (pos_y: int)

text \<open>
  \<open>owner\<close> is \<open>null\<close> on a new transaction and \<open>signature\<close> is \<open>undefined\<close> or
  \<open>null\<close> until one is applied: both are \<open>None\<close>. \<open>previous\<close> is the field
  \<open>_previous\<close>, set by \<open>from\<close>.
\<close>

datatype ('pk, 'sg) Transaction = Transaction
  (version: int)
  (input: buffer)
  (position: position)
  (color: int)
  (owner: "'pk option")
  (signature: "'sg option")
  (previous: "('pk, 'sg) Transaction option")

definition CURRENT_VERSION :: int where
  "CURRENT_VERSION = 1"

definition newTransaction :: "('pk, 'sg) Transaction" where
  "newTransaction = Transaction CURRENT_VERSION NULL_HASH (Position 0 0) 0 None None None"

definition toBufferWriter ::
  "('pk, 'sk, 'sg) ext \<Rightarrow> ('pk, 'sg) Transaction \<Rightarrow> bytes \<Rightarrow> error + bytes" where
  "toBufferWriter X t writer =
     bindE (writeUInt8 (version t) writer) (\<lambda>w1.
     bindE (writeInt32LE (pos_x (position t)) (write_buf (bytes_of (input t)) w1)) (\<lambda>w2.
     bindE (writeInt32LE (pos_y (position t)) w2) (\<lambda>w3.
     bindE (writeUInt32LE (color t) w3) (\<lambda>w4.
       let w5 = (case owner t of Some pk \<Rightarrow> write_buf (PublicKey_toBuffer X pk) w4 | None \<Rightarrow> w4)
       in (case signature t of
             Some sg \<Rightarrow>
               bindE (writeUInt8 (int (length (Signature_toBuffer X sg))) w5)
                 (\<lambda>w6. Inr (write_buf (Signature_toBuffer X sg) w6))
           | None \<Rightarrow> writeUInt8 0 w5)))))"

definition toBuffer :: "('pk, 'sk, 'sg) ext \<Rightarrow> ('pk, 'sg) Transaction \<Rightarrow> error + bytes" where
  "toBuffer X t = toBufferWriter X t []"

definition getHash :: "('pk, 'sk, 'sg) ext \<Rightarrow> ('pk, 'sg) Transaction \<Rightarrow> error + bytes" where
  "getHash X t = mapE (sha256sha256 X) (toBuffer X t)"

text \<open>The properties \<open>hash\<close> and \<open>id\<close>: the hash, byte-reversed, as a hex string.\<close>

definition tx_id :: "('pk, 'sk, 'sg) ext \<Rightarrow> ('pk, 'sg) Transaction \<Rightarrow> error + string" where
  "tx_id X t = mapE (\<lambda>h. Buffer_toString_hex X (rev h)) (getHash X t)"

text \<open>
  \<open>fromBufferReader\<close> fills the fields of \<open>this\<close>; \<open>signature\<close> is assigned only when
  the length byte is not zero, and \<open>_previous\<close> is never touched. The result is the
  transaction and the reader after it; when a read throws, the fields assigned up to
  there are not reported.
\<close>

definition fromBufferReader ::
  "('pk, 'sk, 'sg) ext \<Rightarrow> ('pk, 'sg) Transaction \<Rightarrow> bytes
     \<Rightarrow> error + (('pk, 'sg) Transaction \<times> bytes)" where
  "fromBufferReader X this reader =
     (if finished reader then Inl InvalidArgument
      else
        bindE (readUInt8 reader) (\<lambda>(v, r1).
        bindE (read 32 r1) (\<lambda>(inp, r2).
        bindE (readInt32LE r2) (\<lambda>(px, r3).
        bindE (readInt32LE r3) (\<lambda>(py, r4).
        bindE (readUInt32LE r4) (\<lambda>(c, r5).
        bindE (PublicKey_fromBufferReader X r5) (\<lambda>(pk, r6).
        bindE (readUInt8 r6) (\<lambda>(n, r7).
          if n \<noteq> 0 then
            bindE (read (nat n) r7) (\<lambda>(sb, r8).
            bindE (Signature_fromBuffer X sb) (\<lambda>sg.
              Inr (Transaction v (Buf inp) (Position px py) c (Some pk) (Some sg)
                     (previous this), r8)))
          else
            Inr (Transaction v (Buf inp) (Position px py) c (Some pk) (signature this)
                   (previous this), r7)))))))))"

definition fromBuffer ::
  "('pk, 'sk, 'sg) ext \<Rightarrow> ('pk, 'sg) Transaction \<Rightarrow> bytes \<Rightarrow> error + ('pk, 'sg) Transaction" where
  "fromBuffer X this buf = mapE fst (fromBufferReader X this buf)"

text \<open>
  The argument of \<open>from\<close> is a string (\<open>_.isString\<close>), a \<open>Transaction\<close> or anything
  else.
\<close>

datatype ('pk, 'sg) from_arg =
    FromString string
  | FromTransaction "('pk, 'sg) Transaction"
  | FromOther

definition "from" ::
  "('pk, 'sk, 'sg) ext \<Rightarrow> ('pk, 'sg) Transaction \<Rightarrow> ('pk, 'sg) from_arg
     \<Rightarrow> error + ('pk, 'sg) Transaction" where
  "from X this tx =
     (case tx of
        FromString s \<Rightarrow>
          bindE (Buffer_from_hex X s) (\<lambda>bs.
            Inr (Transaction (version this) (Buf bs) (position this) (color this)
                   (owner this) (signature this) (previous this)))
      | FromOther \<Rightarrow> Inl InvalidArgument
      | FromTransaction t0 \<Rightarrow>
          bindE (tx_id X t0) (\<lambda>i.
          bindE (Buffer_from_hex X i) (\<lambda>bs.
            Inr (Transaction (version this) (Buf bs)
                   (Position (pos_x (position t0)) (pos_y (position t0))) (color this)
                   (owner this) (signature this) (Some t0)))))"

text \<open>\<open>at(x, y)\<close> with two numbers (the \<open>_.isNumber\<close> checks hold by type).\<close>

definition at :: "('pk, 'sg) Transaction \<Rightarrow> int \<Rightarrow> int \<Rightarrow> error + ('pk, 'sg) Transaction" where
  "at this x y =
     (if previous this \<noteq> None then Inl InvalidState
      else Inr (Transaction (version this) (input this) (Position x y) (color this)
                  (owner this) (signature this) (previous this)))"

text \<open>\<open>to(owner)\<close> with a \<open>PublicKey\<close>, and \<open>colored(color)\<close> with a number.\<close>

definition "to" :: "('pk, 'sg) Transaction \<Rightarrow> 'pk \<Rightarrow> ('pk, 'sg) Transaction" where
  "to this pk =
     Transaction (version this) (input this) (position this) (color this) (Some pk)
       (signature this) (previous this)"

definition colored :: "('pk, 'sg) Transaction \<Rightarrow> int \<Rightarrow> error + ('pk, 'sg) Transaction" where
  "colored this c =
     (if c = 0 then Inl InvalidArgument
      else if \<not> (0 \<le> c \<and> c \<le> 4294967295) then Inl InvalidArgument
      else Inr (Transaction (version this) (input this) (position this) c (owner this)
                  (signature this) (previous this)))"

text \<open>The builder chain \<open>new Transaction().from(t0).to(pk).colored(c)\<close>.\<close>

definition transfer ::
  "('pk, 'sk, 'sg) ext \<Rightarrow> ('pk, 'sg) Transaction \<Rightarrow> 'pk \<Rightarrow> int
     \<Rightarrow> error + ('pk, 'sg) Transaction" where
  "transfer X t0 pk c =
     bindE (from X newTransaction (FromTransaction t0)) (\<lambda>t. colored (to t pk) c)"

definition isCoinbase :: "('pk, 'sg) Transaction \<Rightarrow> bool" where
  "isCoinbase this = (input this = NULL_HASH)"

text \<open>
  Modelled from the spec: \<open>Sighash\<close> (lib/transaction/sighash.js, not among the
  sources). Section 4.3: the signature-hash preimage is the serialization of the
  transaction with \<open>sigLen == 0\<close>, that is, without the signature bytes; the signed
  message is \<open>dhash(preimage)\<close>; \<open>sign(privateKey, digest)\<close> and
  \<open>verify(publicKey, digest, signature)\<close> are the black-box primitives. A missing
  signature or key is rejected as an invalid argument.
\<close>

definition sighash :: "('pk, 'sk, 'sg) ext \<Rightarrow> ('pk, 'sg) Transaction \<Rightarrow> error + bytes" where
  "sighash X t =
     mapE (sha256sha256 X)
       (toBuffer X (Transaction (version t) (input t) (position t) (color t) (owner t) None
          (previous t)))"

definition Sighash_sign ::
  "('pk, 'sk, 'sg) ext \<Rightarrow> ('pk, 'sg) Transaction \<Rightarrow> 'sk \<Rightarrow> error + 'sg" where
  "Sighash_sign X t privateKey = mapE (ECDSA_sign X privateKey) (sighash X t)"

definition Sighash_verify ::
  "('pk, 'sk, 'sg) ext \<Rightarrow> ('pk, 'sg) Transaction \<Rightarrow> 'sg option \<Rightarrow> 'pk option \<Rightarrow> error + bool" where
  "Sighash_verify X t sg pk =
     (case sg of
        None \<Rightarrow> Inl InvalidArgument
      | Some s \<Rightarrow>
          (case pk of
             None \<Rightarrow> Inl InvalidArgument
           | Some k \<Rightarrow> mapE (\<lambda>d. ECDSA_verify X k d s) (sighash X t)))"

text \<open>
  The argument of \<open>isValidSignature\<close> and \<open>applySignature\<close> is tested with
  \<open>instanceof Signature\<close>: it is a signature, a public key or \<open>undefined\<close>.
\<close>

datatype ('pk, 'sg) sig_arg =
    ASignature 'sg
  | APublicKey 'pk
  | AUndefined

definition isValidSignature ::
  "('pk, 'sk, 'sg) ext \<Rightarrow> ('pk, 'sg) Transaction \<Rightarrow> ('pk, 'sg) sig_arg \<Rightarrow> error + bool" where
  "isValidSignature X this sg =
     (case previous this of
        None \<Rightarrow> Inl InvalidState
      | Some p \<Rightarrow>
          (case owner p of
             None \<Rightarrow> Inl InvalidState
           | Some pk \<Rightarrow>
               (case sg of
                  ASignature s \<Rightarrow> Sighash_verify X this (Some s) (Some pk)
                | APublicKey k \<Rightarrow> Inl InvalidArgument
                | AUndefined \<Rightarrow> Inl InvalidArgument)))"

definition applySignature ::
  "('pk, 'sk, 'sg) ext \<Rightarrow> ('pk, 'sg) Transaction \<Rightarrow> ('pk, 'sg) sig_arg
     \<Rightarrow> error + ('pk, 'sg) Transaction" where
  "applySignature X this sg =
     (case sg of
        AUndefined \<Rightarrow> Inl InvalidArgument
      | APublicKey k \<Rightarrow> bindE (isValidSignature X this sg) (\<lambda>ok. Inl InvalidArgument)
      | ASignature s \<Rightarrow>
          bindE (isValidSignature X this sg) (\<lambda>ok.
            if \<not> ok then Inl InvalidArgument
            else Inr (Transaction (version this) (input this) (position this) (color this)
                        (owner this) (Some s) (previous this))))"

definition getSignature ::
  "('pk, 'sk, 'sg) ext \<Rightarrow> ('pk, 'sg) Transaction \<Rightarrow> 'sk \<Rightarrow> error + 'sg" where
  "getSignature X this privateKey = Sighash_sign X this privateKey"

text \<open>\<open>sign\<close> with one key; \<open>sign_array\<close> is the branch for an array of keys.\<close>

definition sign ::
  "('pk, 'sk, 'sg) ext \<Rightarrow> ('pk, 'sg) Transaction \<Rightarrow> 'sk \<Rightarrow> error + ('pk, 'sg) Transaction" where
  "sign X this privateKey =
     bindE (getSignature X this privateKey) (\<lambda>sg. applySignature X this (ASignature sg))"

definition sign_array ::
  "('pk, 'sk, 'sg) ext \<Rightarrow> ('pk, 'sg) Transaction \<Rightarrow> 'sk list
     \<Rightarrow> error + ('pk, 'sg) Transaction" where
  "sign_array X this keys = fold (\<lambda>pk r. bindE r (\<lambda>t. sign X t pk)) keys (Inr this)"

section \<open>Block (lib/block/block.js)\<close>

text \<open>
  The engine and the Merkle code read four things of a block: the properties \<open>hash\<close>,
  \<open>prevHash\<close> and \<open>height\<close>, which are getters on the header (hex strings and a number),
  and the list of transactions.
\<close>

record ('pk, 'sg) Block =
  block_hash :: string
  block_prevHash :: string
  block_height :: int
  transactions :: "('pk, 'sg) Transaction list"

text \<open>\<open>Block.Values.NULL_HASH\<close>, a buffer of 32 zero bytes.\<close>

definition Block_NULL_HASH :: bytes where
  "Block_NULL_HASH = replicate 32 0"

fun getHashes ::
  "('pk, 'sk, 'sg) ext \<Rightarrow> ('pk, 'sg) Transaction list \<Rightarrow> bytes list \<Rightarrow> error + bytes list" where
  "getHashes X [] hashes = Inr hashes"
| "getHashes X (t # ts) hashes =
     (case getHash X t of Inl e \<Rightarrow> Inl e | Inr h \<Rightarrow> getHashes X ts (hashes @ [h]))"

definition getTransactionHashes ::
  "('pk, 'sk, 'sg) ext \<Rightarrow> ('pk, 'sg) Block \<Rightarrow> error + bytes list" where
  "getTransactionHashes X b =
     (if length (transactions b) = 0 then Inr [Block_NULL_HASH]
      else getHashes X (transactions b) [])"

text \<open>
  The inner loop of \<open>getMerkleTree\<close> (over \<open>i\<close>) and the outer one (over \<open>size\<close>, here \<open>sz\<close>, with
  the offset \<open>j\<close> of the current level in the flat array). \<open>Buffer.concat\<close> of a
  missing entry throws.
\<close>

function merkle_inner ::
  "(bytes \<Rightarrow> bytes) \<Rightarrow> nat \<Rightarrow> nat \<Rightarrow> nat \<Rightarrow> bytes list \<Rightarrow> error + bytes list" where
  "merkle_inner H sz j i tree =
     (if i < sz then
        (let i2 = min (i + 1) (sz - 1) in
         if j + i < length tree \<and> j + i2 < length tree then
           merkle_inner H sz j (i + 2) (tree @ [H (tree ! (j + i) @ tree ! (j + i2))])
         else Inl TypeError)
      else Inr tree)"
  by pat_completeness auto
termination
  by (relation "measure (\<lambda>(H, sz, j, i, tree). sz - i)") auto

declare merkle_inner.simps [simp del]

function merkle_outer ::
  "(bytes \<Rightarrow> bytes) \<Rightarrow> nat \<Rightarrow> nat \<Rightarrow> bytes list \<Rightarrow> error + bytes list" where
  "merkle_outer H sz j tree =
     (if sz > 1 then
        (case merkle_inner H sz j 0 tree of
           Inl e \<Rightarrow> Inl e
         | Inr tree' \<Rightarrow> merkle_outer H ((sz + 1) div 2) (j + sz) tree')
      else Inr tree)"
  by pat_completeness auto
termination
  by (relation "measure (\<lambda>(H, sz, j, tree). sz)") auto

declare merkle_outer.simps [simp del]

definition getMerkleTree ::
  "('pk, 'sk, 'sg) ext \<Rightarrow> ('pk, 'sg) Block \<Rightarrow> error + bytes list" where
  "getMerkleTree X b =
     bindE (getTransactionHashes X b) (\<lambda>tree.
       merkle_outer (sha256sha256 X) (length (transactions b)) 0 tree)"

definition getMerkleRoot :: "('pk, 'sk, 'sg) ext \<Rightarrow> ('pk, 'sg) Block \<Rightarrow> error + bytes" where
  "getMerkleRoot X b =
     bindE (getMerkleTree X b) (\<lambda>tree.
       if tree = [] then Inl InvalidState else Inr (tree ! (length tree - 1)))"

section \<open>Blockchain (lib/blockchain.js)\<close>

text \<open>
  The index maps are plain JavaScript objects: association lists in insertion order,
  read with \<open>map_of\<close>, written with \<open>AList.update\<close> and \<open>AList.delete\<close>. A property
  name is a string: indexing with \<open>undefined\<close> uses the name \<open>undefined\<close>. The keys
  of \<open>hashByHeight\<close> come from numbers only; \<open>hkey\<close> stands for their names (a decimal
  numeral, \<open>NaN\<close> or \<open>undefined\<close>, all different). The values of \<open>work\<close> and
  \<open>height\<close> are numbers, \<open>NaN\<close> included.
\<close>

datatype jsnum = Num int | NaN

datatype hkey = HNum int | HNaN | HUndefined

fun propkey :: "string option \<Rightarrow> string" where
  "propkey None = ''undefined''"
| "propkey (Some h) = h"

fun hkey_of :: "jsnum option \<Rightarrow> hkey" where
  "hkey_of None = HUndefined"
| "hkey_of (Some NaN) = HNaN"
| "hkey_of (Some (Num n)) = HNum n"

text \<open>\<open>v + n\<close> for a looked-up \<open>v\<close>: \<open>undefined + n\<close> and \<open>NaN + n\<close> are \<open>NaN\<close>.\<close>

fun add_num :: "jsnum option \<Rightarrow> int \<Rightarrow> jsnum" where
  "add_num (Some (Num a)) n = Num (a + n)"
| "add_num (Some NaN) n = NaN"
| "add_num None n = NaN"

text \<open>\<open>!v\<close> for a looked-up number: \<open>undefined\<close>, \<open>0\<close> and \<open>NaN\<close> are falsy.\<close>

fun falsy :: "jsnum option \<Rightarrow> bool" where
  "falsy None = True"
| "falsy (Some NaN) = True"
| "falsy (Some (Num n)) = (n = 0)"

fun js_gt :: "jsnum \<Rightarrow> jsnum \<Rightarrow> bool" where
  "js_gt (Num a) (Num b) = (a > b)"
| "js_gt NaN b = False"
| "js_gt (Num a) NaN = False"

definition NULL :: string where
  "NULL = ''0000000000000000000000000000000000000000000000000000000000000000''"

text \<open>
  \<open>posToString\<close> gives \<open>x + '_' + y\<close>; the decimal numerals of two integers around an
  underscore determine the integers, so the pair stands for the string.
\<close>

definition posToString :: "position \<Rightarrow> int \<times> int" where
  "posToString pos = (pos_x pos, pos_y pos)"

definition neighbors :: "position \<Rightarrow> position list" where
  "neighbors pos =
     [Position (pos_x pos - 1) (pos_y pos),
      Position (pos_x pos + 1) (pos_y pos),
      Position (pos_x pos) (pos_y pos - 1),
      Position (pos_x pos) (pos_y pos + 1)]"

text \<open>
  Modelled from the spec: \<open>BlockStore\<close> (lib/store/block.js, not among the sources).
  Section 4.6: a key-value map from display hash to the block, with \<open>set(obj)\<close> and
  \<open>get(hash)\<close>; \<open>get\<close> of an unknown hash is \<open>undefined\<close>.
\<close>

definition BlockStore_set ::
  "('pk, 'sg) Block \<Rightarrow> (string \<times> ('pk, 'sg) Block) list \<Rightarrow> (string \<times> ('pk, 'sg) Block) list" where
  "BlockStore_set block st = AList.update (block_hash block) block st"

definition BlockStore_get ::
  "(string \<times> ('pk, 'sg) Block) list \<Rightarrow> string option \<Rightarrow> ('pk, 'sg) Block option" where
  "BlockStore_get st h = map_of st (propkey h)"

text \<open>
  Modelled from the spec: \<open>TransactionStore\<close> (lib/store/transaction.js, not among the
  sources). Section 4.6: a key-value map from display hash to the transaction;
  \<open>set(obj)\<close> files the transaction under its \<open>hash\<close> property, which serializes it.
\<close>

definition TransactionStore_set ::
  "('pk, 'sk, 'sg) ext \<Rightarrow> ('pk, 'sg) Transaction \<Rightarrow> (string \<times> ('pk, 'sg) Transaction) list
     \<Rightarrow> error + (string \<times> ('pk, 'sg) Transaction) list" where
  "TransactionStore_set X tx st = mapE (\<lambda>i. AList.update i tx st) (tx_id X tx)"

record ('pk, 'sg) Blockchain =
  tip :: "string option"
  work :: "(string \<times> jsnum) list"
  height :: "(string \<times> jsnum) list"
  hashByHeight :: "(hkey \<times> string) list"
  "next" :: "(string \<times> string) list"
  prev :: "(string \<times> string) list"
  pixels :: "((int \<times> int) \<times> ('pk, 'sg) Transaction) list"
  blockStore :: "(string \<times> ('pk, 'sg) Block) list"
  txStore :: "(string \<times> ('pk, 'sg) Transaction) list"

definition Blockchain_new :: "('pk, 'sg) Blockchain" where
  "Blockchain_new =
     \<lparr> tip = Some NULL,
       work = [(NULL, Num 0)],
       height = [(NULL, Num (- 1))],
       hashByHeight = [(HNum (- 1), NULL)],
       next = [],
       prev = [],
       pixels = [],
       blockStore = [],
       txStore = [] \<rparr>"

definition getWork :: "string \<Rightarrow> int" where
  "getWork h = 1"

definition addHashReferences ::
  "('pk, 'sg) Blockchain \<Rightarrow> ('pk, 'sg) Block \<Rightarrow> ('pk, 'sg) Blockchain" where
  "addHashReferences self block =
     (let prevHash = block_prevHash block; h = block_hash block
      in self\<lparr> work := AList.update h (add_num (map_of (work self) prevHash) (getWork h))
                          (work self),
                prev := AList.update h prevHash (prev self) \<rparr>)"

text \<open>A throw inside a loop over the transactions keeps what was stored before it.\<close>

fun storeTxs ::
  "('pk, 'sk, 'sg) ext \<Rightarrow> ('pk, 'sg) Transaction list
     \<Rightarrow> (string \<times> ('pk, 'sg) Transaction) list
     \<Rightarrow> error option \<times> (string \<times> ('pk, 'sg) Transaction) list" where
  "storeTxs X [] st = (None, st)"
| "storeTxs X (tx # txs) st =
     (case TransactionStore_set X tx st of
        Inl e \<Rightarrow> (Some e, st)
      | Inr st' \<Rightarrow> storeTxs X txs st')"

definition saveTxToStore ::
  "('pk, 'sk, 'sg) ext \<Rightarrow> ('pk, 'sg) Blockchain \<Rightarrow> ('pk, 'sg) Block
     \<Rightarrow> error option \<times> ('pk, 'sg) Blockchain" where
  "saveTxToStore X self block =
     (case storeTxs X (transactions block) (txStore self) of
        (e, st) \<Rightarrow> (e, self\<lparr> txStore := st \<rparr>))"

definition saveBlockToStore ::
  "('pk, 'sk, 'sg) ext \<Rightarrow> ('pk, 'sg) Blockchain \<Rightarrow> ('pk, 'sg) Block
     \<Rightarrow> error option \<times> ('pk, 'sg) Blockchain" where
  "saveBlockToStore X self block =
     saveTxToStore X (self\<lparr> blockStore := BlockStore_set block (blockStore self) \<rparr>) block"

text \<open>
  The signature loop of \<open>checkValidBlock\<close>, from index 1 on, with the scratch map
  \<open>prevTx\<close>.
\<close>

fun checkSignatures ::
  "('pk, 'sk, 'sg) ext \<Rightarrow> ((int \<times> int) \<times> ('pk, 'sg) Transaction) list
     \<Rightarrow> ((int \<times> int) \<rightharpoonup> ('pk, 'sg) Transaction) \<Rightarrow> ('pk, 'sg) Transaction list
     \<Rightarrow> error + bool" where
  "checkSignatures X px prevTx [] = Inr True"
| "checkSignatures X px prevTx (tx # txs) =
     (let pos = posToString (position tx);
          prevTx1 = (if prevTx pos = None then prevTx(pos := map_of px pos) else prevTx)
      in case prevTx1 pos of
           None \<Rightarrow> Inl TypeError
         | Some p \<Rightarrow>
             (case Sighash_verify X tx (signature tx) (owner p) of
                Inl e \<Rightarrow> Inl e
              | Inr ok \<Rightarrow>
                  if \<not> ok then Inl Error
                  else checkSignatures X px (prevTx1(pos \<mapsto> tx)) txs))"

definition checkValidBlock ::
  "('pk, 'sk, 'sg) ext \<Rightarrow> ('pk, 'sg) Blockchain \<Rightarrow> ('pk, 'sg) Block \<Rightarrow> error + bool" where
  "checkValidBlock X self block =
     (if map_of (work self) (block_prevHash block) = None then Inl Error
      else
        (case transactions block of
           [] \<Rightarrow> Inl TypeError
         | coinbase # rest \<Rightarrow>
             (let coinbasePos = posToString (position coinbase) in
              if map_of (pixels self) coinbasePos \<noteq> None then Inl Error
              else
                (let adjacent =
                       fold (\<lambda>n adj. if map_of (pixels self) (posToString n) \<noteq> None
                                      then True else adj)
                         (neighbors (position coinbase)) (block_height block = 0)
                 in if \<not> adjacent then Inl Error
                    else checkSignatures X (pixels self) [coinbasePos \<mapsto> coinbase] rest))))"

definition isValidBlock ::
  "('pk, 'sk, 'sg) ext \<Rightarrow> ('pk, 'sg) Blockchain \<Rightarrow> ('pk, 'sg) Block \<Rightarrow> bool" where
  "isValidBlock X self block =
     (case checkValidBlock X self block of Inl e \<Rightarrow> False | Inr v \<Rightarrow> True)"

definition hasData :: "('pk, 'sg) Blockchain \<Rightarrow> string \<Rightarrow> bool" where
  "hasData self h = (if h = NULL then True else map_of (work self) h \<noteq> None)"

text \<open>
  \<open>confirm\<close> and \<open>unconfirm\<close> throw, if at all, before their first assignment: the
  result is the error or the new state.
\<close>

definition confirm ::
  "('pk, 'sg) Blockchain \<Rightarrow> ('pk, 'sg) Block \<Rightarrow> error + ('pk, 'sg) Blockchain" where
  "confirm self block =
     (let h = block_hash block;
          prevHash = map_of (prev self) h
      in if \<not> (prevHash \<noteq> Some NULL \<or> prevHash = tip self) then Inl InvalidState
         else
           (let ht = add_num (map_of (height self) (propkey prevHash)) 1
            in Inr (self\<lparr> tip := Some h,
                           next := AList.update (propkey prevHash) h (next self),
                           hashByHeight := AList.update (hkey_of (Some ht)) h (hashByHeight self),
                           height := AList.update h ht (height self),
                           pixels := fold (\<lambda>tx px. AList.update (posToString (position tx)) tx px)
                                       (transactions block) (pixels self) \<rparr>)))"

text \<open>
  \<open>unconfirm(hash)\<close> is declared with a hash; its one caller, \<open>_appendNewBlock\<close>,
  passes the block that \<open>blockStore.get\<close> returns. The argument is a hash (or
  \<open>undefined\<close>) or a block object; \<open>hash === this.tip\<close> is false for an object.
\<close>

datatype ('pk, 'sg) unconfirm_arg =
    UHash "string option"
  | UBlock "('pk, 'sg) Block"

definition unconfirm ::
  "('pk, 'sg) Blockchain \<Rightarrow> ('pk, 'sg) unconfirm_arg \<Rightarrow> error + ('pk, 'sg) Blockchain" where
  "unconfirm self arg =
     (case arg of
        UBlock b \<Rightarrow> Inl InvalidState
      | UHash h \<Rightarrow>
          (let prevHash = map_of (prev self) (propkey h)
           in if h \<noteq> tip self then Inl InvalidState
              else
                (let ht = map_of (height self) (propkey h)
                 in Inr (self\<lparr> tip := prevHash,
                                next := AList.delete (propkey prevHash) (next self),
                                hashByHeight := AList.delete (hkey_of ht) (hashByHeight self),
                                height := AList.delete (propkey h) (height self) \<rparr>))))"

text \<open>
  The two walks of \<open>_appendNewBlock\<close>. Neither loop has a bound: a \<open>prev\<close> chain that
  never meets a block with a height keeps the first one running, so not returning is
  the value \<open>None\<close>.
\<close>

partial_function (option) walkToConfirm ::
  "('pk, 'sg) Blockchain \<Rightarrow> string option \<Rightarrow> string option list
     \<Rightarrow> (string option list \<times> string option) option" where
  "walkToConfirm self pointer toConfirm =
     (if map_of (height self) (propkey pointer) = None
      then walkToConfirm self (map_of (prev self) (propkey pointer)) (toConfirm @ [pointer])
      else Some (toConfirm, pointer))"

partial_function (option) walkToUnconfirm ::
  "('pk, 'sg) Blockchain \<Rightarrow> string option \<Rightarrow> string option \<Rightarrow> string option list
     \<Rightarrow> string option list option" where
  "walkToUnconfirm self pointer commonAncestor toUnconfirm =
     (if pointer \<noteq> commonAncestor
      then walkToUnconfirm self (map_of (prev self) (propkey pointer)) commonAncestor
             (toUnconfirm @ [pointer])
      else Some toUnconfirm)"

declare walkToConfirm.simps [code]

declare walkToUnconfirm.simps [code]

fun unconfirmEach ::
  "('pk, 'sg) Blockchain \<Rightarrow> string option list \<Rightarrow> error option \<times> ('pk, 'sg) Blockchain" where
  "unconfirmEach self [] = (None, self)"
| "unconfirmEach self (h # hs) =
     (case unconfirm self
             (case BlockStore_get (blockStore self) h of
                Some b \<Rightarrow> UBlock b
              | None \<Rightarrow> UHash None) of
        Inl e \<Rightarrow> (Some e, self)
      | Inr self' \<Rightarrow> unconfirmEach self' hs)"

fun confirmEach ::
  "('pk, 'sg) Blockchain \<Rightarrow> string option list \<Rightarrow> error option \<times> ('pk, 'sg) Blockchain" where
  "confirmEach self [] = (None, self)"
| "confirmEach self (h # hs) =
     (case BlockStore_get (blockStore self) h of
        None \<Rightarrow> (Some TypeError, self)
      | Some b \<Rightarrow>
          (case confirm self b of
             Inl e \<Rightarrow> (Some e, self)
           | Inr self' \<Rightarrow> confirmEach self' hs))"

record reorg =
  unconfirmed :: "string option list"
  confirmed :: "string option list"

definition appendNewBlock ::
  "('pk, 'sg) Blockchain \<Rightarrow> string
     \<Rightarrow> ((error + reorg) \<times> ('pk, 'sg) Blockchain) option" where
  "appendNewBlock self h =
     (case walkToConfirm self (Some h) [] of
        None \<Rightarrow> None
      | Some (toConfirm, commonAncestor) \<Rightarrow>
          (case walkToUnconfirm self (tip self) commonAncestor [] of
             None \<Rightarrow> None
           | Some toUnconfirm \<Rightarrow>
               Some (case unconfirmEach self toUnconfirm of
                       (Some e, s1) \<Rightarrow> (Inl e, s1)
                     | (None, s1) \<Rightarrow>
                         (case confirmEach s1 (rev toConfirm) of
                            (Some e, s2) \<Rightarrow> (Inl e, s2)
                          | (None, s2) \<Rightarrow>
                              (Inr \<lparr> unconfirmed = toUnconfirm, confirmed = rev toConfirm \<rparr>,
                               s2)))))"

definition proposeNewBlock ::
  "('pk, 'sk, 'sg) ext \<Rightarrow> ('pk, 'sg) Blockchain \<Rightarrow> ('pk, 'sg) Block
     \<Rightarrow> ((error + reorg) \<times> ('pk, 'sg) Blockchain) option" where
  "proposeNewBlock X self block =
     (let prevHash = block_prevHash block; h = block_hash block
      in if \<not> isValidBlock X self block then Some (Inl InvalidArgument, self)
         else if \<not> hasData self prevHash then Some (Inl InvalidState, self)
         else
           (case saveBlockToStore X self block of
              (Some e, s1) \<Rightarrow> Some (Inl e, s1)
            | (None, s1) \<Rightarrow>
                (let s2 = addHashReferences s1 block
                 in case map_of (work s2) h of
                      None \<Rightarrow> Some (Inl InvalidState, s2)
                    | Some w \<Rightarrow>
                        (case map_of (work s2) (propkey (tip s2)) of
                           None \<Rightarrow> Some (Inl InvalidState, s2)
                         | Some tipWork \<Rightarrow>
                             if js_gt w tipWork then appendNewBlock s2 h
                             else Some (Inr \<lparr> unconfirmed = [], confirmed = [] \<rparr>, s2)))))"

text \<open>
  \<open>prune\<close> runs lodash's \<open>_.each\<close> over the object \<open>this.prev\<close>: the own keys are taken
  once, in insertion order, and the callback gets the value found under each key at
  that moment (\<open>undefined\<close> once the entry is deleted) as its first argument, which
  the source names \<open>key\<close>.
\<close>

definition pruneStep :: "string \<Rightarrow> ('pk, 'sg) Blockchain \<Rightarrow> ('pk, 'sg) Blockchain" where
  "pruneStep k self =
     (let key = map_of (prev self) k
      in if falsy (map_of (height self) (propkey key))
         then self\<lparr> prev := AList.delete (propkey key) (prev self),
                    work := AList.delete (propkey key) (work self) \<rparr>
         else self)"

definition prune :: "('pk, 'sg) Blockchain \<Rightarrow> ('pk, 'sg) Blockchain" where
  "prune self = fold pruneStep (map fst (prev self)) self"

definition getCurrentHeight :: "('pk, 'sg) Blockchain \<Rightarrow> jsnum option" where
  "getCurrentHeight self = map_of (height self) (propkey (tip self))"

text \<open>
  The two loops of \<open>getBlockLocator\<close>: ten rounds that push while the height is not
  negative, then the back-off loop, which is written with its step as the source has
  it and so has no termination argument of its own.
\<close>

fun recentLoop ::
  "(hkey \<times> string) list \<Rightarrow> nat \<Rightarrow> int \<Rightarrow> string option list \<Rightarrow> string option list \<times> int" where
  "recentLoop hbh 0 currentHeight result = (result, currentHeight)"
| "recentLoop hbh (Suc n) currentHeight result =
     (if currentHeight \<ge> 0
      then recentLoop hbh n (currentHeight - 1) (result @ [map_of hbh (HNum currentHeight)])
      else recentLoop hbh n currentHeight result)"

partial_function (option) backOffLoop ::
  "(hkey \<times> string) list \<Rightarrow> int \<Rightarrow> int \<Rightarrow> string option list \<Rightarrow> string option list option" where
  "backOffLoop hbh currentHeight exponentialBackOff result =
     (if currentHeight > 0
      then backOffLoop hbh (currentHeight - exponentialBackOff) (exponentialBackOff * 2)
             (result @ [map_of hbh (HNum currentHeight)])
      else Some result)"

declare backOffLoop.simps [code]

definition getBlockLocator ::
  "('pk, 'sg) Blockchain \<Rightarrow> (error + string option list) option" where
  "getBlockLocator self =
     (if tip self = None \<or> tip self = Some [] then Some (Inl InvalidState)
      else
        (case getCurrentHeight self of
           None \<Rightarrow> Some (Inl InvalidState)
         | Some NaN \<Rightarrow> Some (Inr [])
         | Some (Num currentHeight) \<Rightarrow>
             (case recentLoop (hashByHeight self) 10 currentHeight [] of
                (result, h) \<Rightarrow> map_option Inr (backOffLoop (hashByHeight self) h 1 result))))"

section \<open>The wire layout of a transaction, as the specification gives it\<close>

text \<open>
  Section 4.3: \<open>u8 version | [32] input | i32 x | i32 y | u32 color | PublicKey owner
  | u8 sigLen | [sigLen] signature\<close>, with \<open>sigLen == 0\<close> for no signature. A valid
  transaction has every field in the range of its wire type, a 32-byte input, an owner,
  and a signature (if any) of at most 255 bytes.
\<close>

definition specLayout :: "('pk, 'sk, 'sg) ext \<Rightarrow> ('pk, 'sg) Transaction \<Rightarrow> bytes" where
  "specLayout X t =
     le_bytes 1 (version t) @ bytes_of (input t)
       @ le_bytes 4 (pos_x (position t)) @ le_bytes 4 (pos_y (position t))
       @ le_bytes 4 (color t)
       @ (case owner t of Some pk \<Rightarrow> PublicKey_toBuffer X pk | None \<Rightarrow> [])
       @ (case signature t of
            None \<Rightarrow> le_bytes 1 0
          | Some sg \<Rightarrow>
              le_bytes 1 (int (length (Signature_toBuffer X sg))) @ Signature_toBuffer X sg)"

definition fieldsInRange :: "('pk, 'sg) Transaction \<Rightarrow> bool" where
  "fieldsInRange t =
     (0 \<le> version t \<and> version t \<le> 255
      \<and> - (2 ^ 31) \<le> pos_x (position t) \<and> pos_x (position t) < 2 ^ 31
      \<and> - (2 ^ 31) \<le> pos_y (position t) \<and> pos_y (position t) < 2 ^ 31
      \<and> 0 \<le> color t \<and> color t < 2 ^ 32)"

definition validTransaction :: "('pk, 'sk, 'sg) ext \<Rightarrow> ('pk, 'sg) Transaction \<Rightarrow> bool" where
  "validTransaction X t =
     (fieldsInRange t
      \<and> length (bytes_of (input t)) = 32
      \<and> owner t \<noteq> None
      \<and> (case signature t of
            None \<Rightarrow> True
          | Some sg \<Rightarrow> length (Signature_toBuffer X sg) \<le> 255))"

section \<open>An instance of the collaborators, to run the model on concrete inputs\<close>

text \<open>
  Stand-ins without any cryptographic strength: the ``hash'' is the 32 bytes of its
  input from offset 33 on (padded with zeros), a public key is its own 33-byte encoding, the private
  key of a public key is the same byte string, and a signature is the key followed by
  the digest. Hex strings are lower-case.
\<close>

definition hexDigits :: string where
  "hexDigits = ''0123456789abcdef''"

definition toHex :: "bytes \<Rightarrow> string" where
  "toHex bs = concat (map (\<lambda>b. [hexDigits ! (unat b div 16), hexDigits ! (unat b mod 16)]) bs)"

fun fromHex :: "string \<Rightarrow> error + bytes" where
  "fromHex [] = Inr []"
| "fromHex [c] = Inl TypeError"
| "fromHex (c # d # cs) =
     (case (map_of (zip hexDigits [0 ..< 16]) c, map_of (zip hexDigits [0 ..< 16]) d) of
        (Some hi, Some lo) \<Rightarrow>
          (case fromHex cs of Inl e \<Rightarrow> Inl e | Inr bs \<Rightarrow> Inr (of_nat (16 * hi + lo) # bs))
      | _ \<Rightarrow> Inl TypeError)"

definition exampleExt :: "(bytes, bytes, bytes) ext" where
  "exampleExt =
     \<lparr> sha256sha256 = (\<lambda>bs. take 32 (drop 33 bs @ replicate 32 0)),
       PublicKey_toBuffer = (\<lambda>pk. pk),
       PublicKey_fromBufferReader = read 33,
       Signature_toBuffer = (\<lambda>sg. sg),
       Signature_fromBuffer = Inr,
       ECDSA_sign = (\<lambda>sk d. sk @ d),
       ECDSA_verify = (\<lambda>pk d sg. sg = pk @ d),
       Buffer_toString_hex = toHex,
       Buffer_from_hex = fromHex \<rparr>"

definition keyA :: bytes where
  "keyA = 2 # replicate 32 10"

definition keyB :: bytes where
  "keyB = 3 # replicate 32 11"

text \<open>
  A coinbase as the builder makes it,
  \<open>new Transaction().at(0, 0).to(keyA).colored(0x13371337)\<close>.
\<close>

definition coinbaseA :: "(bytes, bytes) Transaction" where
  "coinbaseA = Transaction 1 NULL_HASH (Position 0 0) 322376503 (Some keyA) None None"

text \<open>The bytes of \<open>coinbaseA\<close> on the wire, and the transaction decoded from them.\<close>

definition wireA :: bytes where
  "wireA = [1] @ replicate 32 0 @ replicate 8 0 @ [55, 19, 55, 19] @ keyA @ [0]"

definition decodedA :: "(bytes, bytes) Transaction" where
  "decodedA =
     Transaction 1 (Buf (replicate 32 0)) (Position 0 0) 322376503 (Some keyA) None None"

text \<open>
  A transfer of the pixel of \<open>coinbaseA\<close> to \<open>keyB\<close>:
  \<open>new Transaction().from(coinbaseA).to(keyB).colored(255)\<close>, before and after
  \<open>sign(keyA)\<close>.
\<close>

definition spendA :: "(bytes, bytes) Transaction" where
  "spendA =
     Transaction 1 (Buf (replicate 19 10 @ [2, 19, 55, 19, 55] @ replicate 8 0))
       (Position 0 0) 255 (Some keyB) None (Some coinbaseA)"

definition sigA :: bytes where
  "sigA = keyA @ replicate 8 0 @ [255, 0, 0, 0, 3] @ replicate 19 11"

definition spendSignedA :: "(bytes, bytes) Transaction" where
  "spendSignedA =
     Transaction 1 (Buf (replicate 19 10 @ [2, 19, 55, 19, 55] @ replicate 8 0))
       (Position 0 0) 255 (Some keyB) (Some sigA) (Some coinbaseA)"

text \<open>
  Four blocks, their hashes abbreviated: a genesis block \<open>aa\<close>, its child \<open>bb\<close>, and
  a competing branch \<open>cc\<close>, \<open>dd\<close> from the null hash.
\<close>

definition blockG :: "(bytes, bytes) Block" where
  "blockG =
     \<lparr> block_hash = ''aa'', block_prevHash = NULL, block_height = 0,
       transactions = [coinbaseA] \<rparr>"

definition blockB :: "(bytes, bytes) Block" where
  "blockB =
     \<lparr> block_hash = ''bb'', block_prevHash = ''aa'', block_height = 1,
       transactions = [Transaction 1 NULL_HASH (Position 1 0) 255 (Some keyB) None None] \<rparr>"

definition blockC :: "(bytes, bytes) Block" where
  "blockC =
     \<lparr> block_hash = ''cc'', block_prevHash = NULL, block_height = 0,
       transactions = [Transaction 1 NULL_HASH (Position 0 1) 255 (Some keyB) None None] \<rparr>"

definition blockD :: "(bytes, bytes) Block" where
  "blockD =
     \<lparr> block_hash = ''dd'', block_prevHash = ''cc'', block_height = 1,
       transactions = [Transaction 1 NULL_HASH (Position (- 1) 0) 255 (Some keyB) None None] \<rparr>"

text \<open>
  The engine after \<open>proposeNewBlock(blockG)\<close>; after \<open>blockG\<close> and \<open>blockB\<close>;
  after \<open>blockG\<close> and \<open>blockC\<close>; and after \<open>blockG\<close>, \<open>blockC\<close> and \<open>blockD\<close>,
  where the last proposal has more work than the tip and is thrown out of its
  reorganisation.
\<close>

definition chainG :: "(bytes, bytes) Blockchain" where
  "chainG =
     \<lparr> tip = Some ''aa'',
       work = [(NULL, Num 0), (''aa'', Num 1)],
       height = [(NULL, Num (- 1)), (''aa'', Num 0)],
       hashByHeight = [(HNum (- 1), NULL), (HNum 0, ''aa'')],
       next = [(NULL, ''aa'')],
       prev = [(''aa'', NULL)],
       pixels = [((0, 0), coinbaseA)],
       blockStore = [(''aa'', blockG)],
       txStore =
         [(''0a0a0a0a0a0a0a0a0a0a0a0a0a0a0a0a0a0a0a02133713370000000000000000'', coinbaseA)] \<rparr>"

definition chainGB :: "(bytes, bytes) Blockchain" where
  "chainGB =
     \<lparr> tip = Some ''bb'',
       work = [(NULL, Num 0), (''aa'', Num 1), (''bb'', Num 2)],
       height = [(NULL, Num (- 1)), (''aa'', Num 0), (''bb'', Num 1)],
       hashByHeight = [(HNum (- 1), NULL), (HNum 0, ''aa''), (HNum 1, ''bb'')],
       next = [(NULL, ''aa''), (''aa'', ''bb'')],
       prev = [(''aa'', NULL), (''bb'', ''aa'')],
       pixels = [((0, 0), coinbaseA), ((1, 0), hd (transactions blockB))],
       blockStore = [(''aa'', blockG), (''bb'', blockB)],
       txStore =
         [(''0a0a0a0a0a0a0a0a0a0a0a0a0a0a0a0a0a0a0a02133713370000000000000000'', coinbaseA),
          (''0b0b0b0b0b0b0b0b0b0b0b0b0b0b0b0b0b0b0b03000000ff0000000000000001'',
           hd (transactions blockB))] \<rparr>"

definition chainGC :: "(bytes, bytes) Blockchain" where
  "chainGC =
     \<lparr> tip = Some ''aa'',
       work = [(NULL, Num 0), (''aa'', Num 1), (''cc'', Num 1)],
       height = [(NULL, Num (- 1)), (''aa'', Num 0)],
       hashByHeight = [(HNum (- 1), NULL), (HNum 0, ''aa'')],
       next = [(NULL, ''aa'')],
       prev = [(''aa'', NULL), (''cc'', NULL)],
       pixels = [((0, 0), coinbaseA)],
       blockStore = [(''aa'', blockG), (''cc'', blockC)],
       txStore =
         [(''0a0a0a0a0a0a0a0a0a0a0a0a0a0a0a0a0a0a0a02133713370000000000000000'', coinbaseA),
          (''0b0b0b0b0b0b0b0b0b0b0b0b0b0b0b0b0b0b0b03000000ff0000000100000000'',
           hd (transactions blockC))] \<rparr>"

definition chainFork :: "(bytes, bytes) Blockchain" where
  "chainFork =
     \<lparr> tip = Some ''aa'',
       work = [(NULL, Num 0), (''aa'', Num 1), (''cc'', Num 1), (''dd'', Num 2)],
       height = [(NULL, Num (- 1)), (''aa'', Num 0)],
       hashByHeight = [(HNum (- 1), NULL), (HNum 0, ''aa'')],
       next = [(NULL, ''aa'')],
       prev = [(''aa'', NULL), (''cc'', NULL), (''dd'', ''cc'')],
       pixels = [((0, 0), coinbaseA)],
       blockStore = [(''aa'', blockG), (''cc'', blockC), (''dd'', blockD)],
       txStore =
         [(''0a0a0a0a0a0a0a0a0a0a0a0a0a0a0a0a0a0a0a02133713370000000000000000'', coinbaseA),
          (''0b0b0b0b0b0b0b0b0b0b0b0b0b0b0b0b0b0b0b03000000ff0000000100000000'',
           hd (transactions blockC)),
          (''0b0b0b0b0b0b0b0b0b0b0b0b0b0b0b0b0b0b0b03000000ff00000000ffffffff'',
           hd (transactions blockD))] \<rparr>"

text \<open>A block on \<open>aa\<close> whose coinbase, at \<open>(5, 5)\<close>, touches no mined pixel.\<close>

definition blockFar :: "(bytes, bytes) Block" where
  "blockFar =
     \<lparr> block_hash = ''ee'', block_prevHash = ''aa'', block_height = 1,
       transactions = [Transaction 1 NULL_HASH (Position 5 5) 255 (Some keyB) None None] \<rparr>"

section \<open>The block locator and the Merkle root, as the specification gives them\<close>

text \<open>
  Section 4.7: from the current height \<open>H\<close> downward, the 10 most recent heights
  (those that are not negative), then heights at gaps 1, 2, 4, 8, ... below them, as
  long as the height is above zero. The \<open>k\<close>-th of the latter is
  \<open>H - 10 - (1 + 2 + ... + 2 ^ (k - 1)) = H - 9 - 2 ^ k\<close>.
\<close>

definition recentHeights :: "int \<Rightarrow> int list" where
  "recentHeights H = filter (\<lambda>h. 0 \<le> h) (map (\<lambda>i. H - int i) [0 ..< 10])"

definition backOffHeights :: "int \<Rightarrow> int list" where
  "backOffHeights H = takeWhile (\<lambda>h. 0 < h) (map (\<lambda>k. H - 9 - 2 ^ k) [0 ..< nat H])"

definition locatorHeights :: "int \<Rightarrow> int list" where
  "locatorHeights H = recentHeights H @ backOffHeights H"

text \<open>
  Section 4.5: a level of \<open>n\<close> nodes is reduced to \<open>ceil(n/2)\<close> parents, parent \<open>i\<close>
  being \<open>dhash(concat(node[2i], node[min(2i+1, n-1)]))\<close>, until one node is left; the
  root of an empty list is the all-zero hash.
\<close>

definition merkleLevel :: "(bytes \<Rightarrow> bytes) \<Rightarrow> bytes list \<Rightarrow> bytes list" where
  "merkleLevel H nodes =
     map (\<lambda>i. H (nodes ! (2 * i) @ nodes ! min (2 * i + 1) (length nodes - 1)))
       [0 ..< (length nodes + 1) div 2]"

function merkleReduce :: "(bytes \<Rightarrow> bytes) \<Rightarrow> bytes list \<Rightarrow> bytes list" where
  "merkleReduce H nodes =
     (if length nodes \<le> 1 then nodes else merkleReduce H (merkleLevel H nodes))"
  by pat_completeness auto
termination
  by (relation "measure (\<lambda>(H, nodes). length nodes)") (auto simp: merkleLevel_def)

declare merkleReduce.simps [simp del]

definition merkleRootSpec :: "(bytes \<Rightarrow> bytes) \<Rightarrow> bytes list \<Rightarrow> bytes" where
  "merkleRootSpec H hashes =
     (if hashes = [] then replicate 32 0 else last (merkleReduce H hashes))"

text \<open>
  The indices of an engine whose active chain has 26 blocks, heights 0 to 25; the hash
  at height \<open>n\<close> is abbreviated to \<open>n + 1\<close> letters. Pixels and stores play no part in
  the locator and are left empty.
\<close>

definition chainLong :: "(bytes, bytes) Blockchain" where
  "chainLong =
     \<lparr> tip = Some (replicate 26 CHR ''a''),
       work = (NULL, Num 0)
                # map (\<lambda>n. (replicate (Suc n) CHR ''a'', Num (int n + 1))) [0 ..< 26],
       height = (NULL, Num (- 1))
                  # map (\<lambda>n. (replicate (Suc n) CHR ''a'', Num (int n))) [0 ..< 26],
       hashByHeight = (HNum (- 1), NULL)
                        # map (\<lambda>n. (HNum (int n), replicate (Suc n) CHR ''a'')) [0 ..< 26],
       next = (NULL, ''a'')
                # map (\<lambda>n. (replicate (Suc n) CHR ''a'', replicate (Suc (Suc n)) CHR ''a''))
                    [0 ..< 25],
       prev = (''a'', NULL)
                # map (\<lambda>n. (replicate (Suc (Suc n)) CHR ''a'', replicate (Suc n) CHR ''a''))
                    [0 ..< 25],
       pixels = [],
       blockStore = [],
       txStore = [] \<rparr>"

text \<open>
  Section 4.3: the signed message is \<open>dhash\<close> of the serialization of the transaction
  with \<open>sigLen == 0\<close>.
\<close>

definition specDigest :: "('pk, 'sk, 'sg) ext \<Rightarrow> ('pk, 'sg) Transaction \<Rightarrow> bytes" where
  "specDigest X t =
     sha256sha256 X
       (specLayout X
          (Transaction (version t) (input t) (position t) (color t) (owner t) None
             (previous t)))"

text \<open>
  Section 4.5: \<open>tx_hash[i] = tx[i].hash()\<close>. Hashing a transaction can fail where its
  serialization does; \<open>collectE\<close> gives the first failure of a list of results, or all
  the values.
\<close>

fun collectE :: "(error + 'a) list \<Rightarrow> error + 'a list" where
  "collectE [] = Inr []"
| "collectE (m # ms) =
     (case m of Inl e \<Rightarrow> Inl e | Inr v \<Rightarrow> mapE ((#) v) (collectE ms))"

text \<open>
  A block of three transactions, the coinbases of \<open>blockG\<close>, \<open>blockB\<close> and \<open>blockC\<close>,
  and their hashes under the stand-in hash.
\<close>

definition block3 :: "(bytes, bytes) Block" where
  "block3 =
     \<lparr> block_hash = ''ff'', block_prevHash = NULL, block_height = 0,
       transactions = [coinbaseA, hd (transactions blockB), hd (transactions blockC)] \<rparr>"

definition leafA :: bytes where
  "leafA = replicate 8 0 @ [55, 19, 55, 19, 2] @ replicate 19 10"

definition leafB :: bytes where
  "leafB = [1, 0, 0, 0, 0, 0, 0, 0, 255, 0, 0, 0, 3] @ replicate 19 11"

definition leafC :: bytes where
  "leafC = [0, 0, 0, 0, 1, 0, 0, 0, 255, 0, 0, 0, 3] @ replicate 19 11"

section \<open>Codec lemmas\<close>

lemma length_le_bytes: "length (le_bytes k n) = k"
  by (induction k arbitrary: n) auto

lemma le_uint_le_bytes: "le_uint (le_bytes k n) = n mod 256 ^ k"
proof (induction k arbitrary: n)
  case 0
  then show ?case by simp
next
  case (Suc k)
  have "uint (word_of_int n :: 8 word) = n mod 256"
    by (simp add: uint_word_of_int)
  then show ?case
    using Suc[of "n div 256"] zmod_zmult2_eq[of "256 ^ k" n 256] by simp
qed

lemma read_append: "length a = n \<Longrightarrow> read n (a @ rest) = Inr (a, rest)"
  by (simp add: read_def)

lemma read_all: "length a = n \<Longrightarrow> read n a = Inr (a, [])"
  by (simp add: read_def)

lemma readUInt8_le_bytes:
  "0 \<le> n \<Longrightarrow> n \<le> 255 \<Longrightarrow> readUInt8 (le_bytes 1 n @ rest) = Inr (n, rest)"
  unfolding readUInt8_def
  by (subst read_append) (simp_all add: bindE_def uint_word_of_int)

lemma readUInt32LE_le_bytes:
  "0 \<le> n \<Longrightarrow> n < 2 ^ 32 \<Longrightarrow> readUInt32LE (le_bytes 4 n @ rest) = Inr (n, rest)"
  unfolding readUInt32LE_def
  by (subst read_append) (simp_all add: length_le_bytes bindE_def le_uint_le_bytes)

lemma int32_mod:
  "- (2 ^ 31) \<le> (n::int) \<Longrightarrow> n < 2 ^ 31 \<Longrightarrow>
     (if n mod 2 ^ 32 \<ge> 2 ^ 31 then n mod 2 ^ 32 - 2 ^ 32 else n mod 2 ^ 32) = n"
proof (cases "0 \<le> n")
  case True
  assume "n < 2 ^ 31"
  with True have "n mod 2 ^ 32 = n" by simp
  with \<open>n < 2 ^ 31\<close> show ?thesis by simp
next
  case False
  assume lo: "- (2 ^ 31) \<le> n"
  have "(n + 2 ^ 32) mod 2 ^ 32 = n + 2 ^ 32"
    using lo False by (intro mod_pos_pos_trivial) simp_all
  then have "n mod 2 ^ 32 = n + 2 ^ 32" by simp
  with lo False show ?thesis by simp
qed

lemma readInt32LE_le_bytes:
  "- (2 ^ 31) \<le> n \<Longrightarrow> n < 2 ^ 31 \<Longrightarrow> readInt32LE (le_bytes 4 n @ rest) = Inr (n, rest)"
  unfolding readInt32LE_def
  using int32_mod[of n]
  by (subst read_append)
    (simp_all add: length_le_bytes bindE_def le_uint_le_bytes split: if_splits)

lemma toBuffer_specLayout:
  assumes "fieldsInRange t"
    and "case signature t of None \<Rightarrow> True | Some sg \<Rightarrow> length (Signature_toBuffer X sg) \<le> 255"
  shows "toBuffer X t = Inr (specLayout X t)"
  using assms
  by (auto simp add: toBuffer_def toBufferWriter_def fieldsInRange_def specLayout_def bindE_def
      writeUInt8_def writeInt32LE_def writeUInt32LE_def write_buf_def Let_def
      split: option.splits)

lemma fromBufferReader_specLayout:
  assumes "validTransaction X t"
    and "\<And>pk rest. owner t = Some pk \<Longrightarrow>
           PublicKey_fromBufferReader X (PublicKey_toBuffer X pk @ rest) = Inr (pk, rest)"
    and "\<And>sg. signature t = Some sg \<Longrightarrow>
           Signature_fromBuffer X (Signature_toBuffer X sg) = Inr sg"
  shows "fromBufferReader X this (specLayout X t) =
           Inr (Transaction (version t) (Buf (bytes_of (input t))) (position t) (color t)
                  (owner t)
                  (case signature t of
                     None \<Rightarrow> signature this
                   | Some sg \<Rightarrow> if Signature_toBuffer X sg = [] then signature this else Some sg)
                  (previous this), [])"
proof -
  obtain pk where pk: "owner t = Some pk"
    using assms(1) by (auto simp: validTransaction_def)
  have r: "fieldsInRange t" and l: "length (bytes_of (input t)) = 32"
    using assms(1) by (auto simp: validTransaction_def)
  have nf: "\<not> finished (specLayout X t)"
    by (simp add: finished_def specLayout_def)
  show ?thesis
  proof (cases "signature t")
    case None
    have e: "specLayout X t = le_bytes 1 (version t) @ bytes_of (input t)
       @ le_bytes 4 (pos_x (position t)) @ le_bytes 4 (pos_y (position t))
       @ le_bytes 4 (color t) @ PublicKey_toBuffer X pk @ le_bytes 1 0 @ []"
      by (simp add: specLayout_def pk None)
    show ?thesis
      unfolding fromBufferReader_def using nf r
      apply (simp only: if_False)
      apply (simp only: e)
      apply (simp only: readUInt8_le_bytes readInt32LE_le_bytes readUInt32LE_le_bytes
          fieldsInRange_def bindE_def sum.case prod.case read_append[OF l] assms(2)[OF pk])
      apply (simp add: None pk)
      done
  next
    case (Some sg)
    let ?sb = "Signature_toBuffer X sg"
    have len: "length ?sb \<le> 255"
      using assms(1) Some by (simp add: validTransaction_def)
    have e: "specLayout X t = le_bytes 1 (version t) @ bytes_of (input t)
       @ le_bytes 4 (pos_x (position t)) @ le_bytes 4 (pos_y (position t))
       @ le_bytes 4 (color t) @ PublicKey_toBuffer X pk @ le_bytes 1 (int (length ?sb)) @ ?sb"
      by (simp add: specLayout_def pk Some)
    have ru: "readUInt8 (le_bytes 1 (int (length ?sb)) @ ?sb) = Inr (int (length ?sb), ?sb)"
      using len by (intro readUInt8_le_bytes) simp_all
    show ?thesis
      unfolding fromBufferReader_def using nf r
      apply (simp only: if_False)
      apply (simp only: e)
      apply (simp only: readUInt8_le_bytes readInt32LE_le_bytes readUInt32LE_le_bytes
          fieldsInRange_def bindE_def sum.case prod.case read_append[OF l] assms(2)[OF pk] ru)
      apply (simp add: Some pk read_all assms(3)[OF Some] bindE_def)
      done
  qed
qed

section \<open>Transaction codec round trip\<close>

text \<open>
  Claim C8. For every valid transaction (owner present, signature present or absent),
  whose key and signature classes decode what they encode, \<open>toBuffer\<close> gives exactly
  the layout \<open>u8 version | [32] input | i32 x | i32 y | u32 color | PublicKey owner |
  u8 sigLen | [sigLen] signature\<close> (\<open>sigLen == 0\<close> for no signature);
  \<open>fromBufferReader\<close> on a new transaction reads all of it, and the transaction read
  serializes to the same bytes and has the same version, input bytes, position, colour
  and owner.
\<close>

theorem transaction_codec_roundtrip:
  assumes "validTransaction X t"
    and "\<And>pk rest. owner t = Some pk \<Longrightarrow>
           PublicKey_fromBufferReader X (PublicKey_toBuffer X pk @ rest) = Inr (pk, rest)"
    and "\<And>sg. signature t = Some sg \<Longrightarrow>
           Signature_fromBuffer X (Signature_toBuffer X sg) = Inr sg"
  shows "\<exists>t'. toBuffer X t = Inr (specLayout X t)
           \<and> fromBufferReader X newTransaction (specLayout X t) = Inr (t', [])
           \<and> toBuffer X t' = Inr (specLayout X t)
           \<and> version t' = version t \<and> bytes_of (input t') = bytes_of (input t)
           \<and> position t' = position t \<and> color t' = color t \<and> owner t' = owner t"
proof -
  let ?t' = "Transaction (version t) (Buf (bytes_of (input t))) (position t) (color t)
               (owner t)
               (case signature t of
                  None \<Rightarrow> None
                | Some sg \<Rightarrow> if Signature_toBuffer X sg = [] then None else Some sg)
               None"
  have r: "fieldsInRange t"
    and s: "case signature t of None \<Rightarrow> True | Some sg \<Rightarrow> length (Signature_toBuffer X sg) \<le> 255"
    using assms(1) by (auto simp: validTransaction_def)
  have enc: "toBuffer X t = Inr (specLayout X t)"
    using r s by (rule toBuffer_specLayout)
  have dec: "fromBufferReader X newTransaction (specLayout X t) = Inr (?t', [])"
  proof -
    have n: "signature (newTransaction :: ('a, 'c) Transaction) = None"
      "previous (newTransaction :: ('a, 'c) Transaction) = None"
      by (simp_all add: newTransaction_def)
    show ?thesis
      using fromBufferReader_specLayout[OF assms, of newTransaction] by (simp only: n)
  qed
  have r': "fieldsInRange ?t'"
    using r by (simp add: fieldsInRange_def)
  have s': "case signature ?t' of None \<Rightarrow> True | Some sg \<Rightarrow> length (Signature_toBuffer X sg) \<le> 255"
    using s by (auto split: option.splits)
  have same: "specLayout X ?t' = specLayout X t"
    by (auto simp: specLayout_def split: option.splits)
  have enc': "toBuffer X ?t' = Inr (specLayout X t)"
    using toBuffer_specLayout[OF r' s'] same by simp
  show ?thesis
    using enc dec enc' by (intro exI[of _ ?t']) simp
qed

text \<open>The round trip on the signed transfer \<open>spendSignedA\<close>.\<close>

theorem transaction_codec_roundtrip_witness:
  "validTransaction exampleExt spendSignedA
   \<and> (\<exists>t'. toBuffer exampleExt spendSignedA = Inr (specLayout exampleExt spendSignedA)
           \<and> fromBufferReader exampleExt newTransaction (specLayout exampleExt spendSignedA)
               = Inr (t', [])
           \<and> toBuffer exampleExt t' = Inr (specLayout exampleExt spendSignedA)
           \<and> version t' = version spendSignedA
           \<and> bytes_of (input t') = bytes_of (input spendSignedA)
           \<and> position t' = position spendSignedA \<and> color t' = color spendSignedA
           \<and> owner t' = owner spendSignedA)"
proof -
  have v: "validTransaction exampleExt spendSignedA"
    by code_simp
  have pk: "\<And>pk rest. owner spendSignedA = Some pk \<Longrightarrow>
      PublicKey_fromBufferReader exampleExt (PublicKey_toBuffer exampleExt pk @ rest) = Inr (pk, rest)"
    by (auto simp add: spendSignedA_def exampleExt_def keyB_def read_def)
  have sg: "\<And>sg. signature spendSignedA = Some sg \<Longrightarrow>
      Signature_fromBuffer exampleExt (Signature_toBuffer exampleExt sg) = Inr sg"
    by (simp add: exampleExt_def)
  show ?thesis
    using v transaction_codec_roundtrip[OF v pk sg] by simp
qed

section \<open>Rejection of invalid blocks\<close>

text \<open>
  Claim C9. A block for which \<open>isValidBlock\<close> is false is rejected by
  \<open>proposeNewBlock\<close> with the argument error of \<open>$.checkArgument\<close>, and the engine is
  left exactly as it was: stores, \<open>work\<close>, \<open>prev\<close>, \<open>height\<close>, \<open>next\<close>,
  \<open>hashByHeight\<close>, \<open>tip\<close> and \<open>pixels\<close>.
\<close>

theorem proposeNewBlock_rejects_invalid:
  "\<not> isValidBlock X self block
     \<Longrightarrow> proposeNewBlock X self block = Some (Inl InvalidArgument, self)"
  by (simp add: proposeNewBlock_def Let_def)

text \<open>The block \<open>blockFar\<close>, not adjacent to any pixel, proposed after the genesis block.\<close>

theorem proposeNewBlock_rejects_invalid_witness:
  "\<not> isValidBlock exampleExt chainG blockFar
   \<and> proposeNewBlock exampleExt chainG blockFar = Some (Inl InvalidArgument, chainG)"
proof -
  have h: "\<not> isValidBlock exampleExt chainG blockFar"
    by code_simp
  show ?thesis
    using h proposeNewBlock_rejects_invalid[OF h] by simp
qed

section \<open>The builder: \<open>from\<close> with a hex string\<close>

text \<open>
  Claim C10. \<open>from\<close> with a hex string sets only \<open>input\<close>, from the decoded bytes:
  version, position, colour, owner and signature stay, and no previous transaction is
  recorded, so that \<open>at(x, y)\<close> afterwards succeeds and sets the position (on a
  transaction that had no previous transaction before). \<open>from\<close> with a
  \<open>Transaction\<close> records it and copies its position, and \<open>at\<close> is then rejected.
\<close>

theorem from_string_sets_only_input:
  assumes "from X t (FromString s) = Inr t1"
    and "previous t = None"
  shows "Buffer_from_hex X s = Inr (bytes_of (input t1))
         \<and> version t1 = version t \<and> position t1 = position t \<and> color t1 = color t
         \<and> owner t1 = owner t \<and> signature t1 = signature t \<and> previous t1 = None
         \<and> at t1 x y = Inr (Transaction (version t) (input t1) (Position x y) (color t)
                             (owner t) (signature t) None)
         \<and> (\<forall>t0 t2. from X t (FromTransaction t0) = Inr t2 \<longrightarrow>
               previous t2 = Some t0
               \<and> position t2 = Position (pos_x (position t0)) (pos_y (position t0))
               \<and> at t2 x y = Inl InvalidState)"
  using assms
  by (auto simp: from_def at_def bindE_def split: sum.splits)

text \<open>On a new transaction, with the string \<open>0a0b\<close> and with \<open>coinbaseA\<close>.\<close>

theorem from_string_sets_only_input_witness:
  "from exampleExt (newTransaction :: (bytes, bytes) Transaction) (FromString ''0a0b'')
     = Inr (Transaction 1 (Buf [10, 11]) (Position 0 0) 0 None None None)
   \<and> at (Transaction 1 (Buf [10, 11]) (Position 0 0) 0 None None None :: (bytes, bytes) Transaction) 3 4
     = Inr (Transaction 1 (Buf [10, 11]) (Position 3 4) 0 None None None)
   \<and> from exampleExt newTransaction (FromTransaction coinbaseA)
     = Inr (Transaction 1 (Buf (replicate 19 10 @ [2, 19, 55, 19, 55] @ replicate 8 0))
              (Position 0 0) 0 None None (Some coinbaseA))
   \<and> at (Transaction 1 (Buf (replicate 19 10 @ [2, 19, 55, 19, 55] @ replicate 8 0))
              (Position 0 0) 0 None None (Some coinbaseA)) 3 4 = Inl InvalidState"
proof -
  let ?t1 = "Transaction 1 (Buf [10, 11]) (Position 0 0) 0 None None None :: (bytes, bytes) Transaction"
  let ?t2 = "Transaction 1 (Buf (replicate 19 10 @ [2, 19, 55, 19, 55] @ replicate 8 0))
       (Position 0 0) 0 None None (Some coinbaseA)"
  have a: "from exampleExt newTransaction (FromString ''0a0b'') = Inr ?t1"
    by code_simp
  have b: "previous (newTransaction :: (bytes, bytes) Transaction) = None"
    by (simp add: newTransaction_def)
  have c: "from exampleExt newTransaction (FromTransaction coinbaseA) = Inr ?t2"
    by code_simp
  note w = from_string_sets_only_input[OF a b, of 3 4]
  have d: "at ?t1 3 4 = Inr (Transaction 1 (Buf [10, 11]) (Position 3 4) 0 None None None)"
    using w by (simp add: newTransaction_def CURRENT_VERSION_def)
  have e: "at ?t2 3 4 = Inl InvalidState"
    using w c by blast
  show ?thesis
    using a c d e by simp
qed

section \<open>Signing and checking a signature\<close>

lemma sighash_in_range:
  "fieldsInRange t \<Longrightarrow>
     sighash X t = Inr (sha256sha256 X (specLayout X
        (Transaction (version t) (input t) (position t) (color t) (owner t) None (previous t))))"
  unfolding sighash_def
  by (subst toBuffer_specLayout) (simp_all add: fieldsInRange_def mapE_def)

lemma sighash_ignores_signature:
  "sighash X (Transaction v i p c ow sg pr) = sighash X (Transaction v i p c ow None pr)"
  by (simp add: sighash_def)

text \<open>
  Claim C3, as the code has it. \<open>isValidSignature\<close> takes the signature, not the
  previous owner; the key it verifies against is the owner of \<open>_previous\<close>, the
  transaction given to \<open>from\<close>. For a transaction built on \<open>t0\<close> (\<open>from(t0)\<close> has
  recorded it) whose fields can be serialized, where \<open>t0\<close> is owned by \<open>pk\<close> and
  \<open>verify\<close> accepts under \<open>pk\<close> what \<open>sign\<close> produces under \<open>sk\<close>: \<open>sign(sk)\<close>
  succeeds and stores the signature \<open>sign(sk, digest)\<close>, where the digest is \<open>dhash\<close> of
  the serialization with \<open>sigLen == 0\<close>; before and after signing,
  \<open>isValidSignature(signature)\<close> is \<open>verify(pk, digest, signature)\<close> for every
  signature, so it is true of the stored one; and \<open>isValidSignature(pk)\<close> is rejected as
  an invalid argument.
\<close>

theorem sign_then_isValidSignature:
  assumes "previous t = Some t0"
    and "owner t0 = Some pk"
    and "fieldsInRange t"
    and "\<And>d. ECDSA_verify X pk d (ECDSA_sign X sk d)"
  shows "sign X t sk
           = Inr (Transaction (version t) (input t) (position t) (color t) (owner t)
                    (Some (ECDSA_sign X sk (specDigest X t))) (previous t))
         \<and> (\<forall>s. isValidSignature X t (ASignature s)
                  = Inr (ECDSA_verify X pk (specDigest X t) s))
         \<and> (\<forall>s. isValidSignature X
                    (Transaction (version t) (input t) (position t) (color t) (owner t)
                       (Some (ECDSA_sign X sk (specDigest X t))) (previous t)) (ASignature s)
                  = Inr (ECDSA_verify X pk (specDigest X t) s))
         \<and> isValidSignature X
              (Transaction (version t) (input t) (position t) (color t) (owner t)
                 (Some (ECDSA_sign X sk (specDigest X t))) (previous t))
              (ASignature (ECDSA_sign X sk (specDigest X t))) = Inr True
         \<and> isValidSignature X
              (Transaction (version t) (input t) (position t) (color t) (owner t)
                 (Some (ECDSA_sign X sk (specDigest X t))) (previous t))
              (APublicKey pk) = Inl InvalidArgument"
proof -
  let ?d = "specDigest X t"
  let ?sg = "ECDSA_sign X sk ?d"
  let ?t2 = "Transaction (version t) (input t) (position t) (color t) (owner t)
               (Some ?sg) (previous t)"
  have d: "sighash X t = Inr ?d"
    using sighash_in_range[OF assms(3)] by (simp add: specDigest_def)
  have d2: "sighash X ?t2 = Inr ?d"
    using d sighash_ignores_signature[of X "version t" "input t" "position t" "color t"
        "owner t" "Some ?sg" "previous t"]
      sighash_ignores_signature[of X "version t" "input t" "position t" "color t"
        "owner t" "signature t" "previous t"]
    by simp
  have v0: "isValidSignature X t (ASignature s) = Inr (ECDSA_verify X pk ?d s)" for s
    using assms(1,2) d
    by (simp add: isValidSignature_def Sighash_verify_def mapE_def)
  have v1: "isValidSignature X t (ASignature ?sg) = Inr True"
    using v0[of ?sg] assms(4) by simp
  have s: "sign X t sk = Inr ?t2"
    using d v1
    by (simp add: sign_def getSignature_def Sighash_sign_def applySignature_def mapE_def bindE_def)
  have v2: "isValidSignature X ?t2 (ASignature s) = Inr (ECDSA_verify X pk ?d s)" for s
    using assms(1,2) d2
    by (simp add: isValidSignature_def Sighash_verify_def mapE_def)
  have v3: "isValidSignature X ?t2 (APublicKey pk) = Inl InvalidArgument"
    using assms(1,2) by (simp add: isValidSignature_def)
  show ?thesis
    using s v0 v2 v3 assms(4) by simp
qed

text \<open>
  With the stand-in keys: \<open>coinbaseA\<close> is owned by \<open>keyA\<close>, which signs the transfer
  built on it; a signature made with \<open>keyB\<close> is not valid.
\<close>

theorem sign_then_isValidSignature_witness:
  "transfer exampleExt coinbaseA keyB 255 = Inr spendA
   \<and> previous spendA = Some coinbaseA \<and> owner coinbaseA = Some keyA
   \<and> specDigest exampleExt spendA = replicate 8 0 @ [255, 0, 0, 0, 3] @ replicate 19 11
   \<and> sign exampleExt spendA keyA = Inr spendSignedA
   \<and> isValidSignature exampleExt spendSignedA (ASignature sigA) = Inr True
   \<and> isValidSignature exampleExt spendSignedA (ASignature (keyB @ specDigest exampleExt spendA))
       = Inr False"
proof -
  have a: "previous spendA = Some coinbaseA"
    by (simp add: spendA_def)
  have b: "owner coinbaseA = Some keyA"
    by (simp add: coinbaseA_def)
  have c: "fieldsInRange spendA"
    by (simp add: fieldsInRange_def spendA_def)
  have d: "\<And>d. ECDSA_verify exampleExt keyA d (ECDSA_sign exampleExt keyA d)"
    by (simp add: exampleExt_def)
  have e: "transfer exampleExt coinbaseA keyB 255 = Inr spendA"
    by code_simp
  have f: "specDigest exampleExt spendA = replicate 8 0 @ [255, 0, 0, 0, 3] @ replicate 19 11"
    by code_simp
  have g: "Transaction (version spendA) (input spendA) (position spendA) (color spendA)
             (owner spendA) (Some (ECDSA_sign exampleExt keyA (specDigest exampleExt spendA)))
             (previous spendA) = spendSignedA"
    unfolding f by (simp add: spendA_def spendSignedA_def sigA_def exampleExt_def)
  note w = sign_then_isValidSignature[OF a b c d, unfolded g]
  have h: "sign exampleExt spendA keyA = Inr spendSignedA"
    using w by blast
  have i: "isValidSignature exampleExt spendSignedA (ASignature s)
             = Inr (ECDSA_verify exampleExt keyA (specDigest exampleExt spendA) s)" for s
    using w by blast
  have j: "isValidSignature exampleExt spendSignedA (ASignature sigA) = Inr True"
    unfolding i f by (simp add: exampleExt_def sigA_def)
  have k: "isValidSignature exampleExt spendSignedA
             (ASignature (keyB @ specDigest exampleExt spendA)) = Inr False"
    unfolding i by (simp add: exampleExt_def keyA_def keyB_def)
  show ?thesis
    using a b e f h j k by simp
qed

text \<open>
  Claim C3 as it is stated fails: after \<open>sign(keyA)\<close> on the transfer of
  \<open>coinbaseA\<close>, \<open>isValidSignature(keyA)\<close> with the public key does not return true,
  it throws.
\<close>

theorem isValidSignature_publicKey_counterexample:
  "transfer exampleExt coinbaseA keyB 255 = Inr spendA
   \<and> sign exampleExt spendA keyA = Inr spendSignedA
   \<and> isValidSignature exampleExt spendSignedA (APublicKey keyA) = Inl InvalidArgument
   \<and> isValidSignature exampleExt spendSignedA (APublicKey keyA) \<noteq> Inr True"
  by code_simp

section \<open>Coinbase test after decoding\<close>

text \<open>
  Claim C4 on the code: \<open>isCoinbase\<close> compares the buffer \<open>input\<close> with
  \<open>BufferUtil.NULL_HASH\<close> by reference. The coinbase \<open>coinbaseA\<close> made by the builder
  passes; decoded from its own wire bytes, with 32 zero bytes as input, it does not.
\<close>

theorem isCoinbase_after_decoding:
  "isCoinbase coinbaseA
   \<and> toBuffer exampleExt coinbaseA = Inr wireA
   \<and> fromBuffer exampleExt newTransaction wireA = Inr decodedA
   \<and> bytes_of (input decodedA) = replicate 32 0
   \<and> \<not> isCoinbase decodedA"
  by code_simp

section \<open>The engine on concrete chains\<close>

lemma chainG_reached:
  "proposeNewBlock exampleExt Blockchain_new blockG
     = Some (Inr \<lparr> unconfirmed = [], confirmed = [Some ''aa''] \<rparr>, chainG)"
  by code_simp

lemma chainGB_reached:
  "proposeNewBlock exampleExt chainG blockB
     = Some (Inr \<lparr> unconfirmed = [], confirmed = [Some ''bb''] \<rparr>, chainGB)"
  by code_simp

lemma chainGC_reached:
  "proposeNewBlock exampleExt chainG blockC
     = Some (Inr \<lparr> unconfirmed = [], confirmed = [] \<rparr>, chainGC)"
  by code_simp

text \<open>
  \<open>blockD\<close> has more work than the tip \<open>aa\<close>; the reorganisation hands the stored
  block \<open>aa\<close> to \<open>unconfirm\<close>, which throws, after the block was stored and indexed.
\<close>

lemma chainFork_reached:
  "proposeNewBlock exampleExt chainGC blockD = Some (Inl InvalidState, chainFork)"
  by code_simp

text \<open>
  Claim C1 on the code: \<open>unconfirm\<close> does not restore \<open>pixels\<close>. The genesis block is
  confirmed on an engine without pixels; after \<open>unconfirm\<close> of its hash the tip is back
  at the null hash, and the pixel of its coinbase is still there.
\<close>

theorem unconfirm_keeps_confirmed_pixels:
  "pixels (Blockchain_new :: (bytes, bytes) Blockchain) = []
   \<and> proposeNewBlock exampleExt Blockchain_new blockG
       = Some (Inr \<lparr> unconfirmed = [], confirmed = [Some ''aa''] \<rparr>, chainG)
   \<and> mapE tip (unconfirm chainG (UHash (Some ''aa''))) = Inr (Some NULL)
   \<and> mapE pixels (unconfirm chainG (UHash (Some ''aa''))) = Inr [((0, 0), coinbaseA)]"
  by code_simp

text \<open>
  Claim C2 on the code: the assertion of \<open>confirm\<close> holds for every parent other than
  the null hash. In \<open>chainFork\<close> the tip is \<open>aa\<close> and the parent of \<open>blockD\<close> is \<open>cc\<close>;
  \<open>confirm(blockD)\<close> succeeds, moves the tip and writes the pixel.
\<close>

theorem confirm_accepts_noncontiguous_block:
  "tip chainFork = Some ''aa''
   \<and> map_of (prev chainFork) (block_hash blockD) = Some ''cc''
   \<and> mapE tip (confirm chainFork blockD) = Inr (Some ''dd'')
   \<and> mapE pixels (confirm chainFork blockD)
       = Inr [((0, 0), coinbaseA), ((- 1, 0), hd (transactions blockD))]"
  by code_simp

text \<open>The assertion passed: the call returned a state, with the new tip.\<close>

theorem confirm_accepts_noncontiguous_block_witness:
  "confirm chainFork blockD \<noteq> Inl InvalidState
   \<and> mapE tip (confirm chainFork blockD) = Inr (Some ''dd'')"
  using confirm_accepts_noncontiguous_block by (auto simp: mapE_def split: sum.splits)

text \<open>
  Claim C5 on the code: in the chain of \<open>aa\<close> (height 0) and \<open>bb\<close> (height 1), both
  active, \<open>prune\<close> deletes the \<open>prev\<close> and \<open>work\<close> entries of \<open>aa\<close>.
\<close>

theorem prune_drops_active_genesis:
  "tip chainGB = Some ''bb''
   \<and> map_of (height chainGB) ''aa'' = Some (Num 0)
   \<and> map_of (prev chainGB) ''aa'' = Some NULL
   \<and> map_of (work chainGB) ''aa'' = Some (Num 1)
   \<and> map_of (prev (prune chainGB)) ''aa'' = None
   \<and> map_of (work (prune chainGB)) ''aa'' = None"
  by code_simp

section \<open>The block locator\<close>

lemma recentLoop_eq:
  "recentLoop hbh n h acc =
     (acc @ map (\<lambda>x. map_of hbh (HNum x)) (filter (\<lambda>x. 0 \<le> x) (map (\<lambda>i. h - int i) [0 ..< n])),
      if h < 0 then h else if int n \<le> h then h - int n else - 1)"
proof (induction n arbitrary: h acc)
  case 0
  then show ?case by simp
next
  case (Suc n)
  show ?case
  proof (cases "0 \<le> h")
    case True
    have "map (\<lambda>i. h - int i) [0 ..< Suc n] = h # map (\<lambda>i. h - 1 - int i) [0 ..< n]"
      by (simp add: map_upt_Suc del: upt_Suc)
    then show ?thesis
      using True Suc[of "h - 1" "acc @ [map_of hbh (HNum h)]"] by (simp del: upt_Suc)
  next
    case False
    then have "filter (\<lambda>x. 0 \<le> x) (map (\<lambda>i. h - int i) [0 ..< k]) = []" for k
      by (auto simp: filter_empty_conv)
    then show ?thesis
      using False Suc[of h acc] by (simp del: upt_Suc)
  qed
qed

lemma backOffLoop_eq:
  "nat h \<le> n \<Longrightarrow>
     backOffLoop hbh h (2 ^ k) acc =
       Some (acc @ map (\<lambda>x. map_of hbh (HNum x))
                     (takeWhile (\<lambda>x. 0 < x) (map (\<lambda>j. h + 2 ^ k - 2 ^ (k + j)) [0 ..< n])))"
proof (induction n arbitrary: h k acc)
  case 0
  then show ?case by (subst backOffLoop.simps) simp
next
  case (Suc n)
  have m: "map (\<lambda>j. h + 2 ^ k - 2 ^ (k + j)) [0 ..< Suc n]
             = h # map (\<lambda>j. (h - 2 ^ k) + 2 ^ Suc k - 2 ^ (Suc k + j)) [0 ..< n]"
    by (simp add: map_upt_Suc del: upt_Suc)
  show ?case
  proof (cases "0 < h")
    case True
    have "(1::int) \<le> 2 ^ k" by simp
    with Suc.prems True have "nat (h - 2 ^ k) \<le> n" by linarith
    from Suc.IH[OF this, of "Suc k" "acc @ [map_of hbh (HNum h)]"] True show ?thesis
      by (subst backOffLoop.simps) (simp add: m mult.commute del: upt_Suc)
  next
    case False
    then show ?thesis
      by (subst backOffLoop.simps) (simp add: m del: upt_Suc)
  qed
qed

lemma backOffHeights_small: "H < 10 \<Longrightarrow> backOffHeights H = []"
proof (cases "nat H")
  case 0
  then show ?thesis by (simp add: backOffHeights_def)
next
  case (Suc m)
  assume "H < 10"
  then have "\<not> 0 < H - 9 - 2 ^ 0" by simp
  then show ?thesis
    unfolding backOffHeights_def Suc by (simp add: map_upt_Suc del: upt_Suc)
qed

text \<open>
  Claim C6. With a tip that is defined and has height \<open>H\<close>, \<open>getBlockLocator\<close>
  returns, and what it returns are the entries of \<open>hashByHeight\<close> at the heights
  \<open>H, H - 1, ..., H - 9\<close> (those that are not negative), followed by those at
  \<open>H - 10, H - 11, H - 13, H - 17, ...\<close>, each gap twice the one before, as long as the
  height is above zero.
\<close>

theorem getBlockLocator_heights:
  assumes "tip self = Some t"
    and "t \<noteq> []"
    and "map_of (height self) t = Some (Num H)"
  shows "getBlockLocator self
           = Some (Inr (map (\<lambda>h. map_of (hashByHeight self) (HNum h)) (locatorHeights H)))"
proof -
  let ?f = "\<lambda>h. map_of (hashByHeight self) (HNum h)"
  have r: "recentLoop (hashByHeight self) 10 H []
             = (map ?f (recentHeights H), if H < 0 then H else if 10 \<le> H then H - 10 else - 1)"
    by (simp add: recentLoop_eq recentHeights_def)
  have b: "backOffLoop (hashByHeight self) (if H < 0 then H else if 10 \<le> H then H - 10 else - 1)
             1 (map ?f (recentHeights H))
           = Some (map ?f (recentHeights H) @ map ?f (backOffHeights H))"
  proof (cases "10 \<le> H")
    case True
    have "nat (H - 10) \<le> nat H" by simp
    from backOffLoop_eq[OF this, of "hashByHeight self" 0 "map ?f (recentHeights H)"] True
    show ?thesis
      by (simp add: backOffHeights_def)
  next
    case False
    then have "backOffHeights H = []"
      by (simp add: backOffHeights_small)
    with False show ?thesis
      by (subst backOffLoop.simps) simp
  qed
  show ?thesis
    using assms r b
    by (simp add: getBlockLocator_def getCurrentHeight_def locatorHeights_def)
qed

text \<open>On a chain of height 25: fourteen entries, the last at height 8.\<close>

theorem getBlockLocator_heights_witness:
  "tip chainLong = Some (replicate 26 CHR ''a'')
   \<and> map_of (height chainLong) (replicate 26 CHR ''a'') = Some (Num 25)
   \<and> locatorHeights 25 = [25, 24, 23, 22, 21, 20, 19, 18, 17, 16, 15, 14, 12, 8]
   \<and> getBlockLocator chainLong
       = Some (Inr (map (\<lambda>h. map_of (hashByHeight chainLong) (HNum h)) (locatorHeights 25)))
   \<and> map_option (mapE length) (getBlockLocator chainLong) = Some (Inr 14)"
proof -
  have a: "tip chainLong = Some (replicate 26 CHR ''a'')"
    by (simp add: chainLong_def)
  have b: "replicate 26 CHR ''a'' \<noteq> []"
    by simp
  have c: "map_of (height chainLong) (replicate 26 CHR ''a'') = Some (Num 25)"
    by code_simp
  have d: "locatorHeights 25 = [25, 24, 23, 22, 21, 20, 19, 18, 17, 16, 15, 14, 12, 8]"
    by code_simp
  show ?thesis
    using a c d getBlockLocator_heights[OF a b c] by (simp add: mapE_def)
qed

section \<open>The Merkle root\<close>

lemma merkle_inner_level:
  assumes "length pre = j" and "length lvl = sz" and "k \<le> (sz + 1) div 2"
  shows "merkle_inner H sz j (2 * k) (pre @ lvl @ acc)
           = Inr (pre @ lvl @ acc
                  @ map (\<lambda>i. H (lvl ! (2 * i) @ lvl ! min (2 * i + 1) (sz - 1)))
                      [k ..< (sz + 1) div 2])"
  using assms(3)
proof (induction "(sz + 1) div 2 - k" arbitrary: k acc)
  case 0
  then have "k = (sz + 1) div 2" by simp
  then have "\<not> 2 * k < sz" by linarith
  then show ?case
    using \<open>k = (sz + 1) div 2\<close> by (subst merkle_inner.simps) simp
next
  case (Suc m)
  then have lt: "k < (sz + 1) div 2" by linarith
  then have i: "2 * k < sz" by linarith
  let ?i2 = "min (2 * k + 1) (sz - 1)"
  have i2: "?i2 < sz" using i by simp
  have n1: "(pre @ lvl @ acc) ! (j + 2 * k) = lvl ! (2 * k)"
    using assms(1,2) i by (simp add: nth_append)
  have n2: "(pre @ lvl @ acc) ! (j + ?i2) = lvl ! ?i2"
    using assms(1,2) i2 by (simp add: nth_append)
  have b: "j + 2 * k < length (pre @ lvl @ acc)" "j + ?i2 < length (pre @ lvl @ acc)"
    using assms(1,2) i i2 by simp_all
  have m: "m = (sz + 1) div 2 - Suc k" using Suc(2) by simp
  have s: "Suc k \<le> (sz + 1) div 2" using lt by simp
  have step: "merkle_inner H sz j (2 * k) (pre @ lvl @ acc)
        = merkle_inner H sz j (2 * Suc k)
            (pre @ lvl @ (acc @ [H (lvl ! (2 * k) @ lvl ! ?i2)]))"
    using i b n1 n2 by (subst merkle_inner.simps) (simp add: Let_def)
  show ?case
    unfolding step Suc(1)[OF m s]
    using lt by (simp add: upt_conv_Cons)
qed

lemma length_merkleLevel: "length (merkleLevel H nodes) = (length nodes + 1) div 2"
  by (simp add: merkleLevel_def)

lemma merkle_outer_root:
  assumes "length pre = j" and "length lvl = sz" and "1 \<le> sz"
  shows "\<exists>tree. merkle_outer H sz j (pre @ lvl) = Inr tree \<and> tree \<noteq> []
           \<and> last tree = last (merkleReduce H lvl)"
  using assms
proof (induction sz arbitrary: pre lvl j rule: less_induct)
  case (less sz)
  show ?case
  proof (cases "1 < sz")
    case False
    with less.prems have "sz = 1" by simp
    then have "merkle_outer H sz j (pre @ lvl) = Inr (pre @ lvl)"
      by (subst merkle_outer.simps) simp
    moreover have "lvl \<noteq> []" using less.prems by auto
    moreover have "merkleReduce H lvl = lvl"
      using less.prems \<open>sz = 1\<close> by (subst merkleReduce.simps) simp
    ultimately show ?thesis by simp
  next
    case True
    have inner: "merkle_inner H sz j 0 (pre @ lvl) = Inr (pre @ lvl @ merkleLevel H lvl)"
      using merkle_inner_level[OF less.prems(1,2), of 0 H "[]"] less.prems(2)
      by (simp add: merkleLevel_def)
    have lt: "(sz + 1) div 2 < sz" using True by linarith
    have l1: "length (pre @ lvl) = j + sz" using less.prems by simp
    have l2: "length (merkleLevel H lvl) = (sz + 1) div 2"
      using less.prems by (simp add: length_merkleLevel)
    have l3: "1 \<le> (sz + 1) div 2" using True by linarith
    obtain tree where t: "merkle_outer H ((sz + 1) div 2) (j + sz) ((pre @ lvl) @ merkleLevel H lvl) = Inr tree"
      "tree \<noteq> []" "last tree = last (merkleReduce H (merkleLevel H lvl))"
      using less.IH[OF lt l1 l2 l3] by blast
    have red: "merkleReduce H lvl = merkleReduce H (merkleLevel H lvl)"
      using True less.prems by (subst merkleReduce.simps) simp
    have "merkle_outer H sz j (pre @ lvl) = Inr tree"
      using True inner t(1) by (subst merkle_outer.simps) simp
    then show ?thesis using t red by simp
  qed
qed

lemma getHashes_length:
  "getHashes X ts acc = Inr r \<Longrightarrow> length r = length acc + length ts"
  by (induction ts arbitrary: acc) (auto split: sum.splits)

lemma getMerkleRoot_getHashes:
  "getMerkleRoot X b
     = mapE (merkleRootSpec (sha256sha256 X)) (getHashes X (transactions b) [])"
proof (cases "transactions b = []")
  case True
  have "merkle_outer (sha256sha256 X) 0 0 [Block_NULL_HASH] = Inr [Block_NULL_HASH]"
    by (subst merkle_outer.simps) simp
  then show ?thesis
    using True
    by (simp add: getMerkleRoot_def getMerkleTree_def getTransactionHashes_def bindE_def
        mapE_def merkleRootSpec_def Block_NULL_HASH_def)
next
  case False
  show ?thesis
  proof (cases "getHashes X (transactions b) []")
    case (Inl e)
    with False show ?thesis
      by (simp add: getMerkleRoot_def getMerkleTree_def getTransactionHashes_def bindE_def
          mapE_def)
  next
    case (Inr hs)
    have len: "length hs = length (transactions b)"
      using getHashes_length[OF Inr] by simp
    then have ne: "hs \<noteq> []" and one: "1 \<le> length (transactions b)"
      using False by (auto simp: Suc_le_eq)
    obtain tree where t:
      "merkle_outer (sha256sha256 X) (length (transactions b)) 0 ([] @ hs) = Inr tree"
      "tree \<noteq> []" "last tree = last (merkleReduce (sha256sha256 X) hs)"
      using merkle_outer_root[of "[]" 0 hs "length (transactions b)" "sha256sha256 X"] len one
      by auto
    show ?thesis
      using False Inr t ne
      by (simp add: getMerkleRoot_def getMerkleTree_def getTransactionHashes_def bindE_def
          mapE_def merkleRootSpec_def last_conv_nth)
  qed
qed

lemma getHashes_collectE:
  "getHashes X ts acc = mapE ((@) acc) (collectE (map (getHash X) ts))"
proof (induction ts arbitrary: acc)
  case Nil
  then show ?case by (simp add: mapE_def)
next
  case (Cons t ts)
  show ?case
  proof (cases "getHash X t")
    case (Inl e)
    then show ?thesis by (simp add: mapE_def)
  next
    case (Inr h)
    then show ?thesis
      using Cons[of "acc @ [h]"] by (simp add: mapE_def split: sum.splits)
  qed
qed

lemma collectE_all_Inr: "collectE (map Inr hs) = Inr hs"
  by (induction hs) (simp_all add: mapE_def)

text \<open>
  Claim C7. \<open>getMerkleRoot\<close>, which builds all levels in one flat array, gives the
  Merkle root of the hashes of the block's transactions, \<open>getHash\<close> of each in order,
  as the specification defines it level by level: the all-zero hash for an empty list,
  otherwise the node left after reducing each level of \<open>n\<close> nodes to \<open>ceil(n/2)\<close>
  parents, parent \<open>i\<close> hashing node \<open>2i\<close> followed by node \<open>min(2i+1, n-1)\<close>. When a
  transaction cannot be hashed, the result is the first such error. In particular,
  when the double hashes of the serializations are \<open>hs\<close>, the result is the root of
  \<open>hs\<close>.
\<close>

theorem getMerkleRoot_is_merkle_root:
  "getMerkleRoot X b
     = mapE (merkleRootSpec (sha256sha256 X)) (collectE (map (getHash X) (transactions b)))
   \<and> (\<forall>hs. map (\<lambda>t. mapE (sha256sha256 X) (toBuffer X t)) (transactions b) = map Inr hs
          \<longrightarrow> getMerkleRoot X b = Inr (merkleRootSpec (sha256sha256 X) hs))"
proof -
  have e: "getHashes X (transactions b) [] = collectE (map (getHash X) (transactions b))"
    using getHashes_collectE[of X "transactions b" "[]"]
    by (cases "collectE (map (getHash X) (transactions b))") (simp_all add: mapE_def)
  have a: "getMerkleRoot X b
     = mapE (merkleRootSpec (sha256sha256 X)) (collectE (map (getHash X) (transactions b)))"
    using getMerkleRoot_getHashes[of X b] e by simp
  have g: "map (getHash X) ts = map (\<lambda>t. mapE (sha256sha256 X) (toBuffer X t)) ts" for ts
    by (simp add: getHash_def)
  show ?thesis
    using a by (auto simp: g collectE_all_Inr mapE_def)
qed

text \<open>
  On \<open>block3\<close>: three leaves, the third paired with itself.
\<close>

theorem getMerkleRoot_is_merkle_root_witness:
  "map (\<lambda>t. mapE (sha256sha256 exampleExt) (toBuffer exampleExt t)) (transactions block3)
     = map Inr [leafA, leafB, leafC]
   \<and> getMerkleRoot exampleExt block3
       = Inr (merkleRootSpec (sha256sha256 exampleExt) [leafA, leafB, leafC])
   \<and> merkleRootSpec (sha256sha256 exampleExt) [leafA, leafB, leafC]
       = sha256sha256 exampleExt
           (sha256sha256 exampleExt (leafA @ leafB) @ sha256sha256 exampleExt (leafC @ leafC))"
proof -
  have h: "map (\<lambda>t. mapE (sha256sha256 exampleExt) (toBuffer exampleExt t)) (transactions block3)
     = map Inr [leafA, leafB, leafC]"
    by code_simp
  have r: "merkleRootSpec (sha256sha256 exampleExt) [leafA, leafB, leafC]
       = sha256sha256 exampleExt
           (sha256sha256 exampleExt (leafA @ leafB) @ sha256sha256 exampleExt (leafC @ leafC))"
    by code_simp
  show ?thesis
    using h r getMerkleRoot_is_merkle_root[of exampleExt block3] by blast
qed

end
